theory Spec2Isabelle
  imports Main "HOL-Library.AList" "HOL-Library.Char_ord" "HOL-Library.List_Lexorder"
begin

section \<open>Levels (levels.go)\<close>

text \<open>
  \<^verbatim>\<open>type Level int\<close> with the eight constants numbered by \<^verbatim>\<open>iota\<close>. A level is an
  integer: the type has values outside the eight constants, the comparison of
  \<^verbatim>\<open>output\<close> is the comparison of integers, and nothing does arithmetic on a level.
\<close>

type_synonym Level = int

definition DebugLevel :: Level where "DebugLevel = 0"
definition InfoLevel :: Level where "InfoLevel = 1"
definition NoticeLevel :: Level where "NoticeLevel = 2"
definition WarningLevel :: Level where "WarningLevel = 3"
definition ErrorLevel :: Level where "ErrorLevel = 4"
definition CriticalLevel :: Level where "CriticalLevel = 5"
definition AlertLevel :: Level where "AlertLevel = 6"
definition EmergencyLevel :: Level where "EmergencyLevel = 7"

definition defaultLevel :: Level where
  "defaultLevel = NoticeLevel"

text \<open>The two tables, as the association lists their literals are.\<close>

definition logLevelLabels :: "(Level \<times> string) list" where
  "logLevelLabels =
     [(DebugLevel, ''debug''), (InfoLevel, ''info''), (NoticeLevel, ''notice''),
      (WarningLevel, ''warning''), (ErrorLevel, ''error''), (CriticalLevel, ''critical''),
      (AlertLevel, ''alert''), (EmergencyLevel, ''emergency'')]"

definition logLevelValues :: "(string \<times> Level) list" where
  "logLevelValues =
     [(''debug'', DebugLevel), (''info'', InfoLevel), (''notice'', NoticeLevel),
      (''warning'', WarningLevel), (''error'', ErrorLevel), (''critical'', CriticalLevel),
      (''alert'', AlertLevel), (''emergency'', EmergencyLevel)]"

text \<open>
  \<^verbatim>\<open>logLevelLabels[l]\<close>: reading a Go map at a key it does not hold gives the zero
  value, here the empty string.
\<close>

definition String :: "Level \<Rightarrow> string" where
  "String l = (case map_of logLevelLabels l of Some label \<Rightarrow> label | None \<Rightarrow> [])"

text \<open>
  \<^verbatim>\<open>strings.ToLower\<close>. A string is its bytes. The library scans for a byte outside
  ASCII and for an upper-case ASCII letter; an all-ASCII string is returned as it is
  when it has no upper-case letter and has \<^verbatim>\<open>'a' - 'A'\<close> added to each of its upper-case
  letters otherwise. A string with a byte outside ASCII goes through
  \<^verbatim>\<open>strings.Map(unicode.ToLower, s)\<close>, which needs the Unicode tables: that function is
  the parameter \<open>unicode_lower\<close>, and every statement below holds for each value of it.
\<close>

definition is_ascii :: "char \<Rightarrow> bool" where
  "is_ascii c = ((of_char c :: nat) < 128)"

definition is_upper :: "char \<Rightarrow> bool" where
  "is_upper c = (CHR ''A'' \<le> c \<and> c \<le> CHR ''Z'')"

definition lower_byte :: "char \<Rightarrow> char" where
  "lower_byte c = (if is_upper c then char_of ((of_char c :: nat) + 32) else c)"

definition ToLower :: "(string \<Rightarrow> string) \<Rightarrow> string \<Rightarrow> string" where
  "ToLower unicode_lower s =
     (if list_all is_ascii s
      then (if \<not> list_ex is_upper s then s else map lower_byte s)
      else unicode_lower s)"

definition ToLevel :: "(string \<Rightarrow> string) \<Rightarrow> string \<Rightarrow> Level" where
  "ToLevel unicode_lower v =
     (case map_of logLevelValues (ToLower unicode_lower v) of
        None \<Rightarrow> defaultLevel
      | Some l \<Rightarrow> l)"

text \<open>
  The specification's wording of the lookup, to compare \<open>ToLevel\<close> with: the eight
  defined levels, two strings matching when they are equal once lower-cased, the level
  of the first label of the table that matches, and Notice when none does. The label
  table is \<open>logLevelLabels\<close>, read through \<open>String\<close>; \<open>ToLevel\<close> reads the other
  table.
\<close>

definition defined_levels :: "Level list" where
  "defined_levels =
     [DebugLevel, InfoLevel, NoticeLevel, WarningLevel, ErrorLevel, CriticalLevel,
      AlertLevel, EmergencyLevel]"

definition same_ignoring_case :: "(string \<Rightarrow> string) \<Rightarrow> string \<Rightarrow> string \<Rightarrow> bool" where
  "same_ignoring_case unicode_lower a b = (ToLower unicode_lower a = ToLower unicode_lower b)"

definition label_lookup :: "(string \<Rightarrow> string) \<Rightarrow> string \<Rightarrow> Level" where
  "label_lookup unicode_lower v =
     (case find (\<lambda>l. same_ignoring_case unicode_lower (String l) v) defined_levels of
        Some l \<Rightarrow> l
      | None \<Rightarrow> NoticeLevel)"

section \<open>Source locations (logger.go, \<open>Src.TruncateFile\<close>)\<close>

text \<open>
  The library functions \<open>TruncateFile\<close> calls, on a system whose
  \<^verbatim>\<open>filepath.Separator\<close> is the slash and whose paths have no volume name. Each follows
  the library's own loop. The separator is one ASCII byte, which no multi-byte UTF-8
  sequence contains, so scanning bytes finds the separators that scanning runes finds.
\<close>

definition Separator :: char where
  "Separator = CHR ''/''"

text \<open>
  \<^verbatim>\<open>filepath.Split\<close>: \<^verbatim>\<open>i\<close> runs down from the last byte while \<^verbatim>\<open>path[i]\<close> is not a
  separator; the result is \<^verbatim>\<open>path[:i+1], path[i+1:]\<close>. \<open>split_index path n\<close> is
  \<^verbatim>\<open>i + 1\<close> for the loop started at \<^verbatim>\<open>i = n - 1\<close>.
\<close>

fun split_index :: "string \<Rightarrow> nat \<Rightarrow> nat" where
  "split_index path 0 = 0"
| "split_index path (Suc i) =
     (if path ! i \<noteq> Separator then split_index path i else Suc i)"

definition Split :: "string \<Rightarrow> string \<times> string" where
  "Split path = (let k = split_index path (length path) in (take k path, drop k path))"

text \<open>
  \<^verbatim>\<open>strings.FieldsFunc\<close>: the maximal runs of bytes that do not satisfy \<open>f\<close>. The
  library keeps the start of the field it is in (\<^verbatim>\<open>start >= 0\<close>); here \<open>cur\<close> is
  that field's bytes so far, and \<open>None\<close> is \<^verbatim>\<open>start < 0\<close>.
\<close>

fun fields_loop :: "(char \<Rightarrow> bool) \<Rightarrow> string \<Rightarrow> string option \<Rightarrow> string list \<Rightarrow> string list" where
  "fields_loop f [] cur spans = (case cur of Some w \<Rightarrow> spans @ [w] | None \<Rightarrow> spans)"
| "fields_loop f (c # cs) cur spans =
     (if f c
      then (case cur of
              Some w \<Rightarrow> fields_loop f cs None (spans @ [w])
            | None \<Rightarrow> fields_loop f cs None spans)
      else (case cur of
              Some w \<Rightarrow> fields_loop f cs (Some (w @ [c])) spans
            | None \<Rightarrow> fields_loop f cs (Some [c]) spans))"

definition FieldsFunc :: "string \<Rightarrow> (char \<Rightarrow> bool) \<Rightarrow> string list" where
  "FieldsFunc s f = fields_loop f s None []"

text \<open>
  \<^verbatim>\<open>filepath.Clean\<close>. \<open>buf\<close> is the output written so far (the library's
  \<^verbatim>\<open>out\<close> up to \<^verbatim>\<open>out.w\<close>), \<open>dotdot\<close> the index in it that a \<^verbatim>\<open>..\<close> element may
  not back over. \<open>backtrack\<close> is the inner loop of the \<^verbatim>\<open>..\<close> case:
  \<^verbatim>\<open>for out.w > dotdot && !IsPathSeparator(out.index(out.w)) { out.w-- }\<close>.
\<close>

fun backtrack :: "string \<Rightarrow> nat \<Rightarrow> nat \<Rightarrow> nat" where
  "backtrack buf dotdot 0 = 0"
| "backtrack buf dotdot (Suc w) =
     (if Suc w > dotdot \<and> buf ! (Suc w) \<noteq> Separator then backtrack buf dotdot w else Suc w)"

function clean_loop :: "bool \<Rightarrow> string \<Rightarrow> string \<Rightarrow> nat \<Rightarrow> string" where
  "clean_loop rooted [] buf dotdot = buf"
| "clean_loop rooted (c # cs) buf dotdot =
     (if c = Separator then clean_loop rooted cs buf dotdot
      else if c = CHR ''.'' \<and> (cs = [] \<or> hd cs = Separator) then clean_loop rooted cs buf dotdot
      else if c = CHR ''.'' \<and> cs \<noteq> [] \<and> hd cs = CHR ''.'' \<and> (tl cs = [] \<or> hd (tl cs) = Separator)
      then
        (if length buf > dotdot
         then clean_loop rooted (tl cs) (take (backtrack buf dotdot (length buf - 1)) buf) dotdot
         else if \<not> rooted
         then
           (let buf' = (if length buf > 0 then buf @ [Separator] else buf) @ ''..''
            in clean_loop rooted (tl cs) buf' (length buf'))
         else clean_loop rooted (tl cs) buf dotdot)
      else
        (let buf' = (if rooted \<and> length buf \<noteq> 1 \<or> \<not> rooted \<and> length buf \<noteq> 0
                     then buf @ [Separator] else buf)
         in clean_loop rooted (dropWhile (\<lambda>x. x \<noteq> Separator) (c # cs))
              (buf' @ takeWhile (\<lambda>x. x \<noteq> Separator) (c # cs)) dotdot))"
  by pat_completeness auto
termination
  by (relation "measure (\<lambda>(rooted, path, buf, dotdot). length path)")
     (auto simp: le_imp_less_Suc length_dropWhile_le less_Suc_eq_le intro: le_trans [OF length_dropWhile_le])

definition Clean :: "string \<Rightarrow> string" where
  "Clean path =
     (if path = [] then ''.''
      else
        (let rooted = (hd path = Separator);
             buf = (if rooted then clean_loop rooted (tl path) [Separator] 1
                    else clean_loop rooted path [] 0)
         in if buf = [] then ''.'' else buf))"

text \<open>\<^verbatim>\<open>strings.Join\<close>, and \<^verbatim>\<open>filepath.Join\<close>: from the first element that is not empty
  on, the elements joined by the separator, cleaned; the empty string when all are empty.\<close>

fun strings_Join :: "string list \<Rightarrow> string \<Rightarrow> string" where
  "strings_Join [] sep = []"
| "strings_Join [e] sep = e"
| "strings_Join (e # es) sep = e @ sep @ strings_Join es sep"

fun Join :: "string list \<Rightarrow> string" where
  "Join [] = []"
| "Join (e # es) = (if e \<noteq> [] then Clean (strings_Join (e # es) [Separator]) else Join es)"

record Src =
  File :: string
  Line :: int

definition TruncateFile :: "Src \<Rightarrow> Src" where
  "TruncateFile s =
     (let (dir, file) = Split (File s);
          parts = FieldsFunc dir (\<lambda>r. r = Separator)
      in if length parts > 0
         then s\<lparr>File := Join [parts ! (length parts - 1), file]\<rparr>
         else s\<lparr>File := file\<rparr>)"

text \<open>
  The specification's wording of the truncation, to compare \<open>TruncateFile\<close> with. The
  filename is what follows the last separator and the directory is what precedes it,
  that separator included; the segments of the directory are the pieces between its
  separators that are not empty; joining is the path join of the library
  (\<open>Join\<close>, which cleans its result).
\<close>

definition file_name :: "string \<Rightarrow> string" where
  "file_name path = rev (takeWhile (\<lambda>c. c \<noteq> Separator) (rev path))"

definition directory :: "string \<Rightarrow> string" where
  "directory path = rev (dropWhile (\<lambda>c. c \<noteq> Separator) (rev path))"

fun pieces :: "string \<Rightarrow> string list" where
  "pieces [] = [[]]"
| "pieces (c # cs) =
     (if c = Separator then [] # pieces cs
      else (case pieces cs of [] \<Rightarrow> [[c]] | w # ws \<Rightarrow> (c # w) # ws))"

definition segments :: "string \<Rightarrow> string list" where
  "segments dir = filter (\<lambda>w. w \<noteq> []) (pieces dir)"

definition truncated :: "string \<Rightarrow> string" where
  "truncated path =
     (case rev (segments (directory path)) of
        [] \<Rightarrow> file_name path
      | seg # _ \<Rightarrow> Join [seg, file_name path])"

text \<open>An ordinary name: not empty, without a separator, and neither of the two names
  \<^verbatim>\<open>.\<close> and \<^verbatim>\<open>..\<close> that cleaning a path rewrites.\<close>

definition plain_name :: "string \<Rightarrow> bool" where
  "plain_name e = (e \<noteq> [] \<and> Separator \<notin> set e \<and> e \<noteq> ''.'' \<and> e \<noteq> ''..'')"

section \<open>Field values, backing arrays and their JSON (logger.go, \<open>Data\<close> and \<open>WriteLog\<close>)\<close>

text \<open>
  A value of the slice type \<^verbatim>\<open>[]any\<close> is a slice header: nil, or a backing array with a
  length; the capacity is the length of the array (the headers of this model start at
  the array's first element). The arrays live in a store shared by every value, so two
  headers on one array see each other's writes, as in Go.
\<close>

datatype slice = NilSlice | Slice nat nat

text \<open>
  A field value is a Go \<^verbatim>\<open>any\<close>. The constructors are the kinds of value the logger and
  the encoder tell apart: the scalars, a slice \<^verbatim>\<open>[]any\<close> (which \<open>With\<close> tests for and
  appends to), a slice of another type (\<^verbatim>\<open>[]string\<close>, which the type assertion
  \<^verbatim>\<open>current.([]any)\<close> refuses), a value \<^verbatim>\<open>encoding/json\<close> returns an error for (a
  channel), and a value whose \<^verbatim>\<open>MarshalJSON\<close> method panics with a message.
\<close>

datatype any =
    ANil
  | ABool bool
  | AInt int
  | AString string
  | ASlice slice
  | AStrings "string list"
  | AChan
  | APanics string

type_synonym Arrays = "any list list"

fun len :: "slice \<Rightarrow> nat" where
  "len NilSlice = 0"
| "len (Slice a n) = n"

fun cap :: "Arrays \<Rightarrow> slice \<Rightarrow> nat" where
  "cap arrays NilSlice = 0"
| "cap arrays (Slice a n) = (if a < length arrays then length (arrays ! a) else 0)"

fun elements :: "Arrays \<Rightarrow> slice \<Rightarrow> any list" where
  "elements arrays NilSlice = []"
| "elements arrays (Slice a n) = (if a < length arrays then take n (arrays ! a) else [])"

text \<open>
  \<^verbatim>\<open>append(s, value)\<close>. With room left in the backing array the value is written into
  it, at the index after the slice's last element, and the result is a longer header on
  the same array. Without room the elements and the value go to a new array; its
  capacity is the run-time's choice \<open>grow\<close> (from the old capacity and the length
  needed), and at least the length needed.
\<close>

definition grown :: "(nat \<Rightarrow> nat \<Rightarrow> nat) \<Rightarrow> slice \<Rightarrow> any \<Rightarrow> Arrays \<Rightarrow> slice \<times> Arrays" where
  "grown grow sl v arrays =
     (let n = len sl; c = max (Suc n) (grow (cap arrays sl) (Suc n))
      in (Slice (length arrays) (Suc n),
          arrays @ [elements arrays sl @ v # replicate (c - Suc n) ANil]))"

fun append_any :: "(nat \<Rightarrow> nat \<Rightarrow> nat) \<Rightarrow> slice \<Rightarrow> any \<Rightarrow> Arrays \<Rightarrow> slice \<times> Arrays" where
  "append_any grow NilSlice v arrays = grown grow NilSlice v arrays"
| "append_any grow (Slice a n) v arrays =
     (if n < cap arrays (Slice a n)
      then (Slice a (Suc n), arrays[a := (arrays ! a)[n := v]])
      else grown grow (Slice a n) v arrays)"

text \<open>The literal \<^verbatim>\<open>[]any{current, value}\<close>: a new array of the two values.\<close>

definition two_values :: "any \<Rightarrow> any \<Rightarrow> Arrays \<Rightarrow> slice \<times> Arrays" where
  "two_values current v arrays = (Slice (length arrays) 2, arrays @ [[current, v]])"

text \<open>
  \<^verbatim>\<open>type Data map[string]any\<close>. A map is an association list read with \<open>map_of\<close>, so
  the first pair of a key is the key's entry; \<open>AList.update\<close> is the assignment
  \<^verbatim>\<open>m[key] = value\<close>. \<open>entries\<close> is what \<^verbatim>\<open>range\<close> visits: each key once, with its
  entry. Go leaves the order of the visit open; the order of the list stands for it.
  A map is modelled by its value: the logger writes to a map only before it stores the
  map in a logger or a record (\<open>With\<close> fills a new map, the emission routine fills the
  record's new map and gives the logger a new empty one).
\<close>

type_synonym Data = "(string \<times> any) list"

definition entries :: "Data \<Rightarrow> (string \<times> any) list" where
  "entries m = AList.clearjunk m"

datatype json =
    JNull
  | JBool bool
  | JNumber int
  | JString string
  | JArray "json list"
  | JObject "(string \<times> json) list"

text \<open>
  \<^verbatim>\<open>json.Marshal\<close> up to the JSON value it writes. The encoder gives a value, returns an
  error (\<open>Failed\<close>, with the error's text), or panics: it does not recover a panic that
  a value's \<^verbatim>\<open>MarshalJSON\<close> raises. The first value that is not encoded ends the
  encoding.
\<close>

datatype 'a encoded = Encoded 'a | Failed string | Panicked string

fun collect :: "'a encoded list \<Rightarrow> 'a list encoded" where
  "collect [] = Encoded []"
| "collect (Encoded x # rs) =
     (case collect rs of
        Encoded xs \<Rightarrow> Encoded (x # xs)
      | Failed e \<Rightarrow> Failed e
      | Panicked p \<Rightarrow> Panicked p)"
| "collect (Failed e # rs) = Failed e"
| "collect (Panicked p # rs) = Panicked p"

text \<open>
  A slice is encoded as the array of its elements, read from the store, and a nil slice
  as \<^verbatim>\<open>null\<close>. Slices can contain themselves; the encoder returns an error when it
  meets a slice header again inside itself. Here the nesting depth is bounded instead:
  \<open>depth_bound\<close> is the number of slice headers the store has room for, so a nesting
  that reaches it has met a header twice.
\<close>

fun marshal_any :: "nat \<Rightarrow> Arrays \<Rightarrow> any \<Rightarrow> json encoded" where
  "marshal_any depth arrays ANil = Encoded JNull"
| "marshal_any depth arrays (ABool b) = Encoded (JBool b)"
| "marshal_any depth arrays (AInt i) = Encoded (JNumber i)"
| "marshal_any depth arrays (AString s) = Encoded (JString s)"
| "marshal_any depth arrays (ASlice NilSlice) = Encoded JNull"
| "marshal_any 0 arrays (ASlice (Slice a n)) =
     Failed ''json: unsupported value: encountered a cycle via []interface {}''"
| "marshal_any (Suc depth) arrays (ASlice (Slice a n)) =
     (case collect (map (marshal_any depth arrays) (elements arrays (Slice a n))) of
        Encoded js \<Rightarrow> Encoded (JArray js)
      | Failed e \<Rightarrow> Failed e
      | Panicked p \<Rightarrow> Panicked p)"
| "marshal_any depth arrays (AStrings ss) = Encoded (JArray (map JString ss))"
| "marshal_any depth arrays AChan = Failed ''json: unsupported type: chan int''"
| "marshal_any depth arrays (APanics p) = Panicked p"

definition depth_bound :: "Arrays \<Rightarrow> nat" where
  "depth_bound arrays = Suc (sum_list (map (\<lambda>arr. Suc (length arr)) arrays))"

text \<open>A map is encoded as an object whose members are sorted by key.\<close>

definition marshal_member :: "Arrays \<Rightarrow> string \<times> any \<Rightarrow> (string \<times> json) encoded" where
  "marshal_member arrays kv =
     (case marshal_any (depth_bound arrays) arrays (snd kv) of
        Encoded j \<Rightarrow> Encoded (fst kv, j)
      | Failed e \<Rightarrow> Failed e
      | Panicked p \<Rightarrow> Panicked p)"

definition marshal_Data :: "Arrays \<Rightarrow> Data \<Rightarrow> json encoded" where
  "marshal_Data arrays d =
     (case collect (map (marshal_member arrays) (sort_key fst (entries d))) of
        Encoded ms \<Rightarrow> Encoded (JObject ms)
      | Failed e \<Rightarrow> Failed e
      | Panicked p \<Rightarrow> Panicked p)"

text \<open>
  The record. \<open>Time\<close> is the timestamp in the RFC 3339 text that \<^verbatim>\<open>time.Time\<close> encodes
  itself to.
\<close>

record WriteLog =
  Time :: string
  App :: string
  Level :: string
  Msg :: string
  Data :: Data
  Src :: Src

definition marshal_Src :: "Src \<Rightarrow> json" where
  "marshal_Src s = JObject [(''file'', JString (File s)), (''line'', JNumber (Line s))]"

text \<open>
  The struct tags of \<open>WriteLog\<close> give the member names, in the order of the fields;
  \<^verbatim>\<open>json:"data,omitempty"\<close> leaves the member out when the map has no entry.
\<close>

definition marshal_WriteLog :: "Arrays \<Rightarrow> WriteLog \<Rightarrow> json encoded" where
  "marshal_WriteLog arrays w =
     (case (if length (Data w) = 0 then Encoded []
            else (case marshal_Data arrays (Data w) of
                    Encoded d \<Rightarrow> Encoded [(''data'', d)]
                  | Failed e \<Rightarrow> Failed e
                  | Panicked p \<Rightarrow> Panicked p)) of
        Encoded data_member \<Rightarrow>
          Encoded (JObject
            ([(''time'', JString (Time w)), (''app'', JString (App w)),
              (''level'', JString (Level w)), (''msg'', JString (Msg w))]
             @ data_member
             @ [(''Src'', marshal_Src (Src w))]))
      | Failed e \<Rightarrow> Failed e
      | Panicked p \<Rightarrow> Panicked p)"

section \<open>Sinks (writers.go)\<close>

text \<open>
  What a write can touch: the bytes on standard output, and the POST requests the remote
  writer has started (each detached from the call that started it: the call does not
  wait for it and never sees its result). \<open>stdout_error\<close> is the error a write to
  standard output fails with, when it fails; a failed write adds nothing.
\<close>

record World =
  stdout :: string
  stdout_error :: "string option"
  posts :: "(string \<times> string) list"

text \<open>\<^verbatim>\<open>fmt.Println(string(p))\<close>: the bytes and a newline; the count and the error.\<close>

definition Println :: "string \<Rightarrow> World \<Rightarrow> (nat \<times> string option) \<times> World" where
  "Println p w =
     (case stdout_error w of
        None \<Rightarrow> ((length p + 1, None), w\<lparr>stdout := stdout w @ p @ [CHR 0x0A]\<rparr>)
      | Some e \<Rightarrow> ((0, Some e), w))"

text \<open>
  What stops a call before it returns: the run-time panic of a nil dereference, and a
  panic raised with a message. Nothing in the package recovers a panic.
\<close>

datatype error = NilDereference | Panic string

text \<open>
  The field \<^verbatim>\<open>out io.Writer\<close> holds one of the package's two writers, or nothing: the
  zero value of a \<open>Logger\<close> has a nil \<open>out\<close>, and calling \<open>Write\<close> on it panics.
\<close>

datatype Writer = NoWriter | stdOutWriter | postWriter string

fun Write :: "Writer \<Rightarrow> string \<Rightarrow> World \<Rightarrow> error + ((nat \<times> string option) \<times> World)" where
  "Write NoWriter p w = Inl NilDereference"
| "Write stdOutWriter p w = Inr (Println p w)"
| "Write (postWriter url) p w =
     Inr (Println p (if url \<noteq> [] then w\<lparr>posts := posts w @ [(url, p)]\<rparr> else w))"

section \<open>The logger (logger.go)\<close>

text \<open>
  A \<^verbatim>\<open>*Logger\<close> is an address in the list of the loggers allocated so far; an address
  past its end is the nil pointer, and dereferencing it is the run-time panic. The
  mutex is left out: the model runs one call at a time. A call returns (\<open>Inr\<close>) or
  panics (\<open>Inl\<close>, with the state it leaves behind).
\<close>

record Logger =
  level :: Level
  app :: string
  data :: Data
  out :: Writer

record State =
  loggers :: "Logger list"
  store :: Arrays
  world :: World
  exit_status :: "int option"

definition deref :: "State \<Rightarrow> nat \<Rightarrow> Logger option" where
  "deref s l = (if l < length (loggers s) then Some (loggers s ! l) else None)"

definition assign :: "nat \<Rightarrow> Logger \<Rightarrow> State \<Rightarrow> State" where
  "assign l lg s = s\<lparr>loggers := (loggers s)[l := lg]\<rparr>"

definition allocate :: "Logger \<Rightarrow> State \<Rightarrow> nat \<times> State" where
  "allocate lg s = (length (loggers s), s\<lparr>loggers := loggers s @ [lg]\<rparr>)"

text \<open>
  What a call reads from outside the program: the clock, the call stack
  (\<^verbatim>\<open>runtime.Caller(skip)\<close>: the file and line, \<open>None\<close> when \<^verbatim>\<open>ok\<close> is false), the
  capacity the run-time gives a slice that has to grow, and two library functions taken
  as they are: \<^verbatim>\<open>fmt.Sprintf\<close>, and the text \<^verbatim>\<open>encoding/json\<close> writes for a JSON
  value.
\<close>

record Env =
  Now :: string
  Caller :: "nat \<Rightarrow> (string \<times> int) option"
  Grow :: "nat \<Rightarrow> nat \<Rightarrow> nat"
  Sprintf :: "string \<Rightarrow> any list \<Rightarrow> string"
  Encode :: "json \<Rightarrow> string"

definition Marshal :: "Env \<Rightarrow> Arrays \<Rightarrow> WriteLog \<Rightarrow> string encoded" where
  "Marshal env arrays w =
     (case marshal_WriteLog arrays w of
        Encoded j \<Rightarrow> Encoded (Encode env j)
      | Failed e \<Rightarrow> Failed e
      | Panicked p \<Rightarrow> Panicked p)"

definition New :: "string \<Rightarrow> Level \<Rightarrow> State \<Rightarrow> nat \<times> State" where
  "New name logLevel s =
     allocate \<lparr>level = logLevel, app = name, data = [], out = stdOutWriter\<rparr> s"

text \<open>
  \<open>With\<close>: the copy of the receiver's fields into a new map, then the loop over the
  arguments and over the entries of each. The copy copies slice headers, not arrays, and
  the \<^verbatim>\<open>append\<close> of the loop works on the store of arrays.
\<close>

definition copy_entry :: "string \<times> any \<Rightarrow> Data \<Rightarrow> Data" where
  "copy_entry kv m = AList.update (fst kv) (snd kv) m"

definition merge_entry :: "(nat \<Rightarrow> nat \<Rightarrow> nat) \<Rightarrow> string \<times> any \<Rightarrow> Data \<times> Arrays \<Rightarrow> Data \<times> Arrays" where
  "merge_entry grow kv ma =
     (case map_of (fst ma) (fst kv) of
        Some current \<Rightarrow>
          (case current of
             ASlice sl \<Rightarrow>
               (case append_any grow sl (snd kv) (snd ma) of
                  (sl', arrays') \<Rightarrow> (AList.update (fst kv) (ASlice sl') (fst ma), arrays'))
           | _ \<Rightarrow>
               (case two_values current (snd kv) (snd ma) of
                  (sl', arrays') \<Rightarrow> (AList.update (fst kv) (ASlice sl') (fst ma), arrays')))
      | None \<Rightarrow> (AList.update (fst kv) (snd kv) (fst ma), snd ma))"

definition merge_nodes :: "(nat \<Rightarrow> nat \<Rightarrow> nat) \<Rightarrow> Data list \<Rightarrow> Data \<times> Arrays \<Rightarrow> Data \<times> Arrays" where
  "merge_nodes grow nodes ma = fold (\<lambda>node. fold (merge_entry grow) (entries node)) nodes ma"

definition With :: "Env \<Rightarrow> Data list \<Rightarrow> nat \<Rightarrow> State \<Rightarrow> (error \<times> State) + (nat \<times> State)" where
  "With env nodes l s =
     (case deref s l of
        None \<Rightarrow> Inl (NilDereference, s)
      | Some lg \<Rightarrow>
          (case merge_nodes (Grow env) nodes (fold copy_entry (entries (data lg)) [], store s) of
             (m, arrays') \<Rightarrow>
               Inr (allocate \<lparr>level = level lg, app = app lg, data = m, out = out lg\<rparr>
                      (s\<lparr>store := arrays'\<rparr>))))"

text \<open>
  \<open>Logger_output\<close> is the emission routine, the logger's \<^verbatim>\<open>output\<close>: the gate, the
  record, the reset of the buffer, the payload (the encoded record, or the fallback text
  when \<^verbatim>\<open>json.Marshal\<close> returns an error), and the write. \<open>deliver\<close> is the line
  \<^verbatim>\<open>_, _ = l.out.Write(data)\<close>: the count and the error the write returns are dropped.
  A panic of \<^verbatim>\<open>json.Marshal\<close> or of the write comes after the reset of the buffer.
\<close>

definition capture :: "Env \<Rightarrow> nat \<Rightarrow> Src" where
  "capture env callDepth =
     (case Caller env callDepth of
        None \<Rightarrow> \<lparr>File = ''???'', Line = 0\<rparr>
      | Some (file, line) \<Rightarrow> TruncateFile \<lparr>File = file, Line = line\<rparr>)"

definition fallback :: "string \<Rightarrow> string" where
  "fallback err = ''Logger unable to marshal log output to JSON: '' @ err"

definition deliver :: "Writer \<Rightarrow> string \<Rightarrow> State \<Rightarrow> (error \<times> State) + State" where
  "deliver sink bytes s =
     (case Write sink bytes (world s) of
        Inl e \<Rightarrow> Inl (e, s)
      | Inr (result, w) \<Rightarrow> Inr (s\<lparr>world := w\<rparr>))"

definition Logger_output :: "Env \<Rightarrow> nat \<Rightarrow> Level \<Rightarrow> string \<Rightarrow> nat \<Rightarrow> State \<Rightarrow> (error \<times> State) + State" where
  "Logger_output env callDepth lvl msg l s =
     (case deref s l of
        None \<Rightarrow> Inl (NilDereference, s)
      | Some lg \<Rightarrow>
          if lvl < level lg then Inr (assign l (lg\<lparr>data := []\<rparr>) s)
          else
            (let rec = \<lparr>Time = Now env, App = app lg, Level = String lvl, Msg = msg,
                        Data = fold copy_entry (entries (data lg)) [],
                        Src = capture env callDepth\<rparr>;
                 s1 = assign l (lg\<lparr>data := []\<rparr>) s
             in case Marshal env (store s1) rec of
                  Panicked p \<Rightarrow> Inl (Panic p, s1)
                | Failed err \<Rightarrow> deliver (out lg) (fallback err) s1
                | Encoded bytes \<Rightarrow> deliver (out lg) bytes s1))"

definition Debug :: "Env \<Rightarrow> string \<Rightarrow> any list \<Rightarrow> nat \<Rightarrow> State \<Rightarrow> (error \<times> State) + State" where
  "Debug env msg args l s = Logger_output env 2 DebugLevel (Sprintf env msg args) l s"

definition Info :: "Env \<Rightarrow> string \<Rightarrow> any list \<Rightarrow> nat \<Rightarrow> State \<Rightarrow> (error \<times> State) + State" where
  "Info env msg args l s = Logger_output env 2 InfoLevel (Sprintf env msg args) l s"

definition Notice :: "Env \<Rightarrow> string \<Rightarrow> any list \<Rightarrow> nat \<Rightarrow> State \<Rightarrow> (error \<times> State) + State" where
  "Notice env msg args l s = Logger_output env 2 NoticeLevel (Sprintf env msg args) l s"

definition Warn :: "Env \<Rightarrow> string \<Rightarrow> any list \<Rightarrow> nat \<Rightarrow> State \<Rightarrow> (error \<times> State) + State" where
  "Warn env msg args l s = Logger_output env 2 WarningLevel (Sprintf env msg args) l s"

definition Error :: "Env \<Rightarrow> string \<Rightarrow> any list \<Rightarrow> nat \<Rightarrow> State \<Rightarrow> (error \<times> State) + State" where
  "Error env msg args l s = Logger_output env 2 ErrorLevel (Sprintf env msg args) l s"

definition Critical :: "Env \<Rightarrow> string \<Rightarrow> any list \<Rightarrow> nat \<Rightarrow> State \<Rightarrow> (error \<times> State) + State" where
  "Critical env msg args l s = Logger_output env 2 CriticalLevel (Sprintf env msg args) l s"

definition Alert :: "Env \<Rightarrow> string \<Rightarrow> any list \<Rightarrow> nat \<Rightarrow> State \<Rightarrow> (error \<times> State) + State" where
  "Alert env msg args l s = Logger_output env 2 AlertLevel (Sprintf env msg args) l s"

definition Emergency :: "Env \<Rightarrow> string \<Rightarrow> any list \<Rightarrow> nat \<Rightarrow> State \<Rightarrow> (error \<times> State) + State" where
  "Emergency env msg args l s = Logger_output env 2 EmergencyLevel (Sprintf env msg args) l s"

text \<open>\<open>Fatal\<close>: the emission, then \<^verbatim>\<open>os.Exit(1)\<close>, which a panic of the emission never
  reaches.\<close>

definition Exit :: "int \<Rightarrow> State \<Rightarrow> State" where
  "Exit code s = s\<lparr>exit_status := Some code\<rparr>"

definition Fatal :: "Env \<Rightarrow> string \<Rightarrow> any list \<Rightarrow> nat \<Rightarrow> State \<Rightarrow> (error \<times> State) + State" where
  "Fatal env msg args l s =
     (case Logger_output env 2 EmergencyLevel (Sprintf env msg args) l s of
        Inl e \<Rightarrow> Inl e
      | Inr s' \<Rightarrow> Inr (Exit 1 s'))"

text \<open>
  The eight severity methods as one family, to state a property of each of them: the
  method's name, the level constant its body passes to \<open>Logger_output\<close>, and the call.
\<close>

datatype severity =
  DebugMethod | InfoMethod | NoticeMethod | WarnMethod | ErrorMethod | CriticalMethod |
  AlertMethod | EmergencyMethod

fun invoke :: "severity \<Rightarrow> Env \<Rightarrow> string \<Rightarrow> any list \<Rightarrow> nat \<Rightarrow> State \<Rightarrow> (error \<times> State) + State" where
  "invoke DebugMethod = Debug"
| "invoke InfoMethod = Info"
| "invoke NoticeMethod = Notice"
| "invoke WarnMethod = Warn"
| "invoke ErrorMethod = Error"
| "invoke CriticalMethod = Critical"
| "invoke AlertMethod = Alert"
| "invoke EmergencyMethod = Emergency"

fun severity_level :: "severity \<Rightarrow> Level" where
  "severity_level DebugMethod = DebugLevel"
| "severity_level InfoMethod = InfoLevel"
| "severity_level NoticeMethod = NoticeLevel"
| "severity_level WarnMethod = WarningLevel"
| "severity_level ErrorMethod = ErrorLevel"
| "severity_level CriticalMethod = CriticalLevel"
| "severity_level AlertMethod = AlertLevel"
| "severity_level EmergencyMethod = EmergencyLevel"

text \<open>The state a call leaves, whether it returned or panicked.\<close>

definition state_after :: "(error \<times> State) + State \<Rightarrow> State" where
  "state_after r = (case r of Inl (e, s) \<Rightarrow> s | Inr s \<Rightarrow> s)"

text \<open>
  What a logger's pending fields are to someone who reads them: a scalar, or the sequence
  of the elements a slice \<^verbatim>\<open>[]any\<close> shows at the moment of the reading.
\<close>

datatype field = Scalar any | Sequence "any list"

definition field_of :: "Arrays \<Rightarrow> any \<Rightarrow> field" where
  "field_of arrays v = (case v of ASlice sl \<Rightarrow> Sequence (elements arrays sl) | _ \<Rightarrow> Scalar v)"

definition fields_of :: "State \<Rightarrow> nat \<Rightarrow> string \<Rightarrow> field option" where
  "fields_of s l k =
     (case deref s l of
        None \<Rightarrow> None
      | Some lg \<Rightarrow> map_option (field_of (store s)) (map_of (data lg) k))"

definition fields_returned :: "(error \<times> State) + (nat \<times> State) \<Rightarrow> string \<Rightarrow> field option" where
  "fields_returned r k = (case r of Inl e \<Rightarrow> None | Inr (l, s) \<Rightarrow> fields_of s l k)"

text \<open>
  The specification's wording of the merge, on the fields as they are read when the call
  starts: an absent key is inserted, a key whose value is a sequence has the new value
  appended, a key whose value is a scalar gets the two-element sequence of the old value
  and the new. A sequence is the logger's own, \<^verbatim>\<open>[]any\<close>.
\<close>

definition merge_step :: "Arrays \<Rightarrow> (string \<rightharpoonup> field) \<Rightarrow> string \<times> any \<Rightarrow> (string \<rightharpoonup> field)" where
  "merge_step arrays pending kv =
     (case pending (fst kv) of
        None \<Rightarrow> pending(fst kv \<mapsto> field_of arrays (snd kv))
      | Some (Sequence sq) \<Rightarrow> pending(fst kv \<mapsto> Sequence (sq @ [snd kv]))
      | Some (Scalar old) \<Rightarrow> pending(fst kv \<mapsto> Sequence [old, snd kv]))"

fun merge_algorithm :: "Arrays \<Rightarrow> (string \<rightharpoonup> field) \<Rightarrow> (string \<times> any) list \<Rightarrow> (string \<rightharpoonup> field)" where
  "merge_algorithm arrays pending [] = pending"
| "merge_algorithm arrays pending (kv # kvs) =
     merge_algorithm arrays (merge_step arrays pending kv) kvs"

text \<open>
  Names for what the statements below speak of: the record a call that passes the gate
  builds, and the member names and members of a JSON object.
\<close>

definition emitted_record :: "Env \<Rightarrow> nat \<Rightarrow> Level \<Rightarrow> string \<Rightarrow> Logger \<Rightarrow> WriteLog" where
  "emitted_record env callDepth lvl msg lg =
     \<lparr>Time = Now env, App = app lg, Level = String lvl, Msg = msg,
      Data = fold copy_entry (entries (data lg)) [],
      Src = capture env callDepth\<rparr>"

definition member_names :: "json \<Rightarrow> string list" where
  "member_names j = (case j of JObject ms \<Rightarrow> map fst ms | _ \<Rightarrow> [])"

definition member :: "json \<Rightarrow> string \<Rightarrow> json option" where
  "member j k = (case j of JObject ms \<Rightarrow> map_of ms k | _ \<Rightarrow> None)"

section \<open>A concrete environment for the examples\<close>

text \<open>
  The examples below run the logger in one fixed environment: a clock reading, a call
  stack whose frame 2 is a line of \<^verbatim>\<open>/home/dev/project/src/model/user.go\<close>, a slice
  that doubles its capacity when it has to grow, messages without formatting verbs
  (which \<^verbatim>\<open>Sprintf\<close> returns as they are), and the compact JSON text of a value whose
  strings need no escaping.
\<close>

fun decimal :: "nat \<Rightarrow> string" where
  "decimal n =
     (if n < 10 then [char_of (48 + n)] else decimal (n div 10) @ [char_of (48 + n mod 10)])"

definition quoted :: "string \<Rightarrow> string" where
  "quoted s = [CHR 0x22] @ s @ [CHR 0x22]"

fun commas :: "string list \<Rightarrow> string" where
  "commas [] = []"
| "commas [x] = x"
| "commas (x # xs) = x @ '','' @ commas xs"

fun compact :: "json \<Rightarrow> string" where
  "compact JNull = ''null''"
| "compact (JBool b) = (if b then ''true'' else ''false'')"
| "compact (JNumber i) = (if i < 0 then ''-'' @ decimal (nat (- i)) else decimal (nat i))"
| "compact (JString s) = quoted s"
| "compact (JArray js) = ''['' @ commas (map compact js) @ '']''"
| "compact (JObject ms) =
     ''{'' @ commas (map (\<lambda>m. quoted (fst m) @ '':'' @ compact (snd m)) ms) @ ''}''"

definition example_env :: Env where
  "example_env =
     \<lparr>Now = ''2024-05-01T12:00:00Z'',
      Caller = (\<lambda>skip. if skip = 2 then Some (''/home/dev/project/src/model/user.go'', 42)
                        else None),
      Grow = (\<lambda>old needed. 2 * old),
      Sprintf = (\<lambda>format args. format),
      Encode = compact\<rparr>"

definition healthy :: World where
  "healthy = \<lparr>stdout = [], stdout_error = None, posts = []\<rparr>"

definition broken :: World where
  "broken = \<lparr>stdout = [], stdout_error = Some ''broken pipe'', posts = []\<rparr>"

definition start :: State where
  "start = \<lparr>loggers = [], store = [], world = healthy, exit_status = None\<rparr>"

text \<open>
  Loggers for the examples, each alone in its state: one with a pending field and the
  threshold Warning, on a healthy standard output; one whose pending field is a channel,
  for which \<^verbatim>\<open>encoding/json\<close> returns an error, on a standard output whose writes fail;
  one whose pending field panics in its \<^verbatim>\<open>MarshalJSON\<close>; the zero value of a
  \<open>Logger\<close>, whose sink is nil; and one whose threshold is \<^verbatim>\<open>Level(8)\<close>, above every
  defined level.
\<close>

definition example_logger :: Logger where
  "example_logger =
     \<lparr>level = WarningLevel, app = ''svc'', data = [(''request'', AString ''r-17'')],
      out = stdOutWriter\<rparr>"

definition example_state :: State where
  "example_state =
     \<lparr>loggers = [example_logger], store = [], world = healthy, exit_status = None\<rparr>"

definition failing_logger :: Logger where
  "failing_logger =
     \<lparr>level = InfoLevel, app = ''svc'', data = [(''c'', AChan)], out = stdOutWriter\<rparr>"

definition failing_state :: State where
  "failing_state =
     \<lparr>loggers = [failing_logger], store = [], world = broken, exit_status = None\<rparr>"

definition panicking_logger :: Logger where
  "panicking_logger =
     \<lparr>level = InfoLevel, app = ''svc'', data = [(''v'', APanics ''boom'')], out = stdOutWriter\<rparr>"

definition panicking_state :: State where
  "panicking_state =
     \<lparr>loggers = [panicking_logger], store = [], world = healthy, exit_status = None\<rparr>"

definition zero_logger :: Logger where
  "zero_logger = \<lparr>level = 0, app = [], data = [], out = NoWriter\<rparr>"

definition zero_state :: State where
  "zero_state = \<lparr>loggers = [zero_logger], store = [], world = healthy, exit_status = None\<rparr>"

definition silent_logger :: Logger where
  "silent_logger = \<lparr>level = 8, app = ''svc'', data = [], out = stdOutWriter\<rparr>"

definition silent_state :: State where
  "silent_state =
     \<lparr>loggers = [silent_logger], store = [], world = healthy, exit_status = None\<rparr>"

text \<open>
  The scenario of the specification: a logger with the threshold Info; \<open>With\<close> and
  \<open>Info\<close> on the logger it returns; then \<open>With\<close> on the original logger again, and
  \<open>Info\<close> on the logger that returns. \<open>example_line\<close> is the line a record of that
  run is written as.
\<close>

definition original_logger_scenario :: "(error \<times> State) + State" where
  "original_logger_scenario =
     (case New ''svc'' InfoLevel start of
        (logger, s0) \<Rightarrow>
          (case With example_env [[(''k'', AString ''v1'')]] logger s0 of
             Inl e \<Rightarrow> Inl e
           | Inr (first, s1) \<Rightarrow>
               (case Info example_env ''a'' [] first s1 of
                  Inl e \<Rightarrow> Inl e
                | Inr s2 \<Rightarrow>
                    (case With example_env [[(''k'', AString ''v2'')]] logger s2 of
                       Inl e \<Rightarrow> Inl e
                     | Inr (second, s3) \<Rightarrow> Info example_env ''b'' [] second s3))))"

definition example_line :: "string \<Rightarrow> (string \<times> json) list \<Rightarrow> string" where
  "example_line msg data_member =
     compact (JObject
       ([(''time'', JString ''2024-05-01T12:00:00Z''), (''app'', JString ''svc''),
         (''level'', JString ''info''), (''msg'', JString msg)]
        @ data_member
        @ [(''Src'', JObject [(''file'', JString ''model/user.go''), (''line'', JNumber 42)])]))
     @ [CHR 0x0A]"

text \<open>
  Three runs in which two slices share a backing array. \<open>and_With\<close> calls \<open>With\<close> on the
  logger a call before it returned.

  In the first, the caller's slice \<open>sl\<close> has length 1 and capacity 4 (\<^verbatim>\<open>"a"\<close> and three
  free places), and one call of \<open>With\<close> on a new logger gets
  \<^verbatim>\<open>Data{"k1": sl, "k2": sl}, Data{"k1": "x"}, Data{"k2": "y"}\<close>.

  In the second, three calls of \<open>With\<close> with the key \<^verbatim>\<open>k\<close> build the logger \<open>base\<close>
  (at address 3), whose slice has length 3 in an array of 4; \<open>With\<close> on \<open>base\<close> returns
  the logger at address 4, and a second \<open>With\<close> on \<open>base\<close> follows.

  In the third, the caller's slice \<open>sl\<close> is \<^verbatim>\<open>[]any{"a", "b", "c"}\<close>; the logger at
  address 1 is made by \<open>With\<close> from \<^verbatim>\<open>Data{"k1": sl[:2], "k2": sl}\<close>, and is then the
  receiver of \<open>With\<close> with \<^verbatim>\<open>Data{"k1": "x"}\<close>.
\<close>

definition and_With ::
  "Data list \<Rightarrow> (error \<times> State) + (nat \<times> State) \<Rightarrow> (error \<times> State) + (nat \<times> State)" where
  "and_With nodes r = (case r of Inl e \<Rightarrow> Inl e | Inr (l, s) \<Rightarrow> With example_env nodes l s)"

definition final_state :: "(error \<times> State) + (nat \<times> State) \<Rightarrow> State" where
  "final_state r = (case r of Inl (e, s) \<Rightarrow> s | Inr (l, s) \<Rightarrow> s)"

definition shared_state :: State where
  "shared_state =
     snd (New ''svc'' InfoLevel (start\<lparr>store := [[AString ''a'', ANil, ANil, ANil]]\<rparr>))"

definition shared_nodes :: "Data list" where
  "shared_nodes =
     [[(''k1'', ASlice (Slice 0 1)), (''k2'', ASlice (Slice 0 1))],
      [(''k1'', AString ''x'')], [(''k2'', AString ''y'')]]"

definition base_state :: State where
  "base_state =
     final_state
       (and_With [[(''k'', AInt 3)]]
         (and_With [[(''k'', AInt 2)]]
           (With example_env [[(''k'', AInt 1)]] 0 (snd (New ''svc'' InfoLevel start)))))"

definition first_derived :: State where
  "first_derived = final_state (With example_env [[(''k'', AString ''a'')]] 3 base_state)"

definition second_derived :: State where
  "second_derived = final_state (With example_env [[(''k'', AString ''b'')]] 3 first_derived)"

definition overlap_state :: State where
  "overlap_state =
     final_state
       (With example_env [[(''k1'', ASlice (Slice 0 2)), (''k2'', ASlice (Slice 0 3))]] 0
         (snd (New ''svc'' InfoLevel
                (start\<lparr>store := [[AString ''a'', AString ''b'', AString ''c'']]\<rparr>))))"

definition overlap_after :: State where
  "overlap_after = final_state (With example_env [[(''k1'', AString ''x'')]] 1 overlap_state)"

section \<open>Levels: the lookup and the labels\<close>

lemma String_simps:
  "String DebugLevel = ''debug''" "String InfoLevel = ''info''"
  "String NoticeLevel = ''notice''" "String WarningLevel = ''warning''"
  "String ErrorLevel = ''error''" "String CriticalLevel = ''critical''"
  "String AlertLevel = ''alert''" "String EmergencyLevel = ''emergency''"
  by (simp_all add: String_def logLevelLabels_def DebugLevel_def InfoLevel_def NoticeLevel_def
      WarningLevel_def ErrorLevel_def CriticalLevel_def AlertLevel_def EmergencyLevel_def)

lemma ToLower_labels:
  "ToLower u ''debug'' = ''debug''" "ToLower u ''info'' = ''info''"
  "ToLower u ''notice'' = ''notice''" "ToLower u ''warning'' = ''warning''"
  "ToLower u ''error'' = ''error''" "ToLower u ''critical'' = ''critical''"
  "ToLower u ''alert'' = ''alert''" "ToLower u ''emergency'' = ''emergency''"
  by code_simp+

lemma ToLevel_label_lookup: "ToLevel u v = label_lookup u v"
  by (simp add: ToLevel_def label_lookup_def same_ignoring_case_def defined_levels_def
      String_simps ToLower_labels logLevelValues_def defaultLevel_def)

lemma lower_byte_no_upper: "\<not> list_ex is_upper s \<Longrightarrow> map lower_byte s = s"
  by (induction s) (auto simp: lower_byte_def)

lemma ToLower_ascii: "list_all is_ascii s \<Longrightarrow> ToLower u s = map lower_byte s"
  by (simp add: ToLower_def lower_byte_no_upper)

lemma label_lookup_no_match:
  "\<forall>l\<in>set defined_levels. \<not> same_ignoring_case u (String l) v \<Longrightarrow>
   label_lookup u v = NoticeLevel"
proof -
  assume "\<forall>l\<in>set defined_levels. \<not> same_ignoring_case u (String l) v"
  then have "find (\<lambda>l. same_ignoring_case u (String l) v) defined_levels = None"
    by (simp add: find_None_iff)
  then show ?thesis by (simp add: label_lookup_def)
qed

text \<open>
  C7. \<open>ToLevel\<close> is the case-insensitive lookup in the label table: it returns the level
  of the label that equals the input once both are lower-cased, and Notice when no label
  does. Two ASCII strings that differ only in the case of their letters get the same
  level. \<open>ToLevel "WARNING"\<close> and \<open>ToLevel "warning"\<close> are Warning, and
  \<open>ToLevel "unknown-garbage"\<close> is Notice.
\<close>

theorem ToLevel_case_insensitive_lookup:
  "ToLevel u v = label_lookup u v
   \<and> ((\<forall>l\<in>set defined_levels. \<not> same_ignoring_case u (String l) v) \<longrightarrow>
        ToLevel u v = NoticeLevel)
   \<and> (list_all is_ascii a \<and> list_all is_ascii b \<and> map lower_byte a = map lower_byte b \<longrightarrow>
        ToLevel u a = ToLevel u b)
   \<and> ToLevel u ''WARNING'' = WarningLevel
   \<and> ToLevel u ''warning'' = WarningLevel
   \<and> ToLevel u ''unknown-garbage'' = NoticeLevel"
proof -
  have 1: "ToLevel u v = label_lookup u v"
    by (rule ToLevel_label_lookup)
  have 2: "(\<forall>l\<in>set defined_levels. \<not> same_ignoring_case u (String l) v) \<longrightarrow>
           ToLevel u v = NoticeLevel"
    using label_lookup_no_match [of u v] by (simp add: ToLevel_label_lookup)
  have 3: "list_all is_ascii a \<and> list_all is_ascii b \<and> map lower_byte a = map lower_byte b \<longrightarrow>
           ToLevel u a = ToLevel u b"
    by (simp add: ToLevel_def ToLower_ascii)
  have 4: "ToLevel u ''WARNING'' = WarningLevel" by code_simp
  have 5: "ToLevel u ''warning'' = WarningLevel" by code_simp
  have 6: "ToLevel u ''unknown-garbage'' = NoticeLevel" by code_simp
  from 1 2 3 4 5 6 show ?thesis by blast
qed

theorem ToLevel_case_insensitive_lookup_witness:
  "ToLevel (\<lambda>s. s) ''verbose'' = NoticeLevel
   \<and> ToLevel (\<lambda>s. s) ''ERROR'' = ToLevel (\<lambda>s. s) ''error''
   \<and> ToLevel (\<lambda>s. s) ''Alert'' = AlertLevel"
proof -
  have h1: "\<forall>l\<in>set defined_levels. \<not> same_ignoring_case (\<lambda>s. s) (String l) ''verbose''"
    by code_simp
  have h2: "list_all is_ascii ''ERROR'' \<and> list_all is_ascii ''error'' \<and>
            map lower_byte ''ERROR'' = map lower_byte ''error''"
    by code_simp
  have h3: "label_lookup (\<lambda>s. s) ''Alert'' = AlertLevel"
    by code_simp
  from ToLevel_case_insensitive_lookup [of "\<lambda>s. s" "''verbose''" "''ERROR''" "''error''"]
    ToLevel_case_insensitive_lookup [of "\<lambda>s. s" "''Alert''" "[]" "[]"] h1 h2 h3
  show ?thesis by simp
qed

text \<open>
  C10. For each of the eight defined levels, looking the level's label up gives the level
  back, and for each label of the table, the label of the level looked up is the label:
  \<open>String\<close> and \<open>ToLevel\<close> are inverse to each other on the defined levels.
\<close>

theorem ToLevel_String_inverse:
  "l \<in> set defined_levels \<Longrightarrow>
   ToLevel u (String l) = l \<and> String (ToLevel u (String l)) = String l
   \<and> String l \<in> snd ` set logLevelLabels"
  by (auto simp: defined_levels_def String_simps ToLevel_def ToLower_labels logLevelValues_def
      logLevelLabels_def image_iff)

theorem ToLevel_String_inverse_witness:
  "CriticalLevel \<in> set defined_levels
   \<and> ToLevel (\<lambda>s. s) (String CriticalLevel) = CriticalLevel
   \<and> String CriticalLevel = ''critical''"
proof -
  have h: "CriticalLevel \<in> set defined_levels" by (simp add: defined_levels_def)
  from ToLevel_String_inverse [OF h, of "\<lambda>s. s"] h show ?thesis
    by (simp add: String_simps)
qed

section \<open>Source locations: the truncation\<close>

lemma split_index_le: "split_index p n \<le> n"
  by (induction n) auto

lemma split_index_append: "n \<le> length p \<Longrightarrow> split_index (p @ q) n = split_index p n"
  by (induction n) (auto simp: nth_append)

lemma Split_eq: "Split path = (directory path, file_name path)"
proof (induction path rule: rev_induct)
  case Nil
  show ?case by (simp add: Split_def directory_def file_name_def)
next
  case (snoc c q)
  let ?k = "split_index q (length q)"
  have k: "?k \<le> length q" by (rule split_index_le)
  from snoc have ih: "take ?k q = directory q" "drop ?k q = file_name q"
    by (simp_all add: Split_def Let_def)
  show ?case
  proof (cases "c = Separator")
    case True
    then show ?thesis by (simp add: Split_def directory_def file_name_def)
  next
    case False
    then have "split_index (q @ [c]) (length (q @ [c])) = ?k"
      by (simp add: split_index_append)
    with False k ih show ?thesis
      by (simp add: Split_def directory_def file_name_def)
  qed
qed

lemma pieces_not_Nil: "pieces cs \<noteq> []"
  by (induction cs) (auto split: list.splits)

lemma fields_loop_pieces:
  "cur \<noteq> Some [] \<Longrightarrow>
   fields_loop (\<lambda>r. r = Separator) cs cur spans =
     spans @ filter (\<lambda>w. w \<noteq> [])
       (case pieces cs of
          [] \<Rightarrow> []
        | w # ws \<Rightarrow> ((case cur of None \<Rightarrow> [] | Some u \<Rightarrow> u) @ w) # ws)"
proof (induction cs arbitrary: cur spans)
  case Nil
  then show ?case by (cases cur) auto
next
  case (Cons c cs)
  obtain w ws where p: "pieces cs = w # ws"
    using pieces_not_Nil [of cs] by (cases "pieces cs") auto
  show ?case
  proof (cases "c = Separator")
    case True
    with Cons p show ?thesis by (cases cur) auto
  next
    case False
    with Cons p show ?thesis by (cases cur) auto
  qed
qed

lemma FieldsFunc_segments: "FieldsFunc dir (\<lambda>r. r = Separator) = segments dir"
  using fields_loop_pieces [of None dir "[]"] pieces_not_Nil [of dir]
  by (cases "pieces dir") (auto simp: FieldsFunc_def segments_def)

lemma TruncateFile_truncated: "TruncateFile s = s\<lparr>File := truncated (File s)\<rparr>"
proof (cases "segments (directory (File s))" rule: rev_cases)
  case Nil
  then show ?thesis
    by (simp add: TruncateFile_def Split_eq FieldsFunc_segments truncated_def)
next
  case (snoc ys y)
  then show ?thesis
    by (simp add: TruncateFile_def Split_eq FieldsFunc_segments truncated_def nth_append)
qed

text \<open>Cleaning leaves an ordinary name as it is, so joining two of them puts one
  separator between them.\<close>

lemma run_plain:
  assumes "Separator \<notin> set e" "rest = [] \<or> hd rest = Separator"
  shows "takeWhile (\<lambda>x. x \<noteq> Separator) (e @ rest) = e"
    and "dropWhile (\<lambda>x. x \<noteq> Separator) (e @ rest) = rest"
  using assms by (induction e) (auto simp: takeWhile_eq_Nil_iff dropWhile_eq_self_iff)

lemma clean_loop_plain:
  assumes e: "plain_name e" and rest: "rest = [] \<or> hd rest = Separator"
  shows "clean_loop False (e @ rest) buf d =
         clean_loop False rest ((if buf \<noteq> [] then buf @ [Separator] else buf) @ e) d"
proof -
  from e obtain c cs where ecs: "e = c # cs" by (cases e) (auto simp: plain_name_def)
  from e ecs have c: "c \<noteq> Separator" and cs: "Separator \<notin> set cs"
    by (auto simp: plain_name_def)
  have dot: "\<not> (c = CHR ''.'' \<and> (cs @ rest = [] \<or> hd (cs @ rest) = Separator))"
    using e ecs cs rest by (cases cs) (auto simp: plain_name_def)
  have dotdot: "\<not> (c = CHR ''.'' \<and> cs @ rest \<noteq> [] \<and> hd (cs @ rest) = CHR ''.'' \<and>
                   (tl (cs @ rest) = [] \<or> hd (tl (cs @ rest)) = Separator))"
  proof (cases cs)
    case Nil
    with e ecs show ?thesis by (auto simp: plain_name_def)
  next
    case (Cons b bs)
    with e ecs cs rest show ?thesis by (cases bs) (auto simp: plain_name_def)
  qed
  have tw: "takeWhile (\<lambda>x. x \<noteq> Separator) (c # cs @ rest) = c # cs"
    and dw: "dropWhile (\<lambda>x. x \<noteq> Separator) (c # cs @ rest) = rest"
    using run_plain [of "c # cs" rest] c cs rest by simp_all
  have "clean_loop False (c # cs @ rest) buf d =
        clean_loop False (dropWhile (\<lambda>x. x \<noteq> Separator) (c # cs @ rest))
          ((if buf \<noteq> [] then buf @ [Separator] else buf)
           @ takeWhile (\<lambda>x. x \<noteq> Separator) (c # cs @ rest)) d"
    by (subst clean_loop.simps(2))
       (simp only: c dot dotdot if_False Let_def list.size simp_thms length_0_conv
          length_greater_0_conv)
  then show ?thesis unfolding tw dw by (simp add: ecs)
qed

lemma Join_plain:
  assumes "plain_name seg" "plain_name file"
  shows "Join [seg, file] = seg @ [Separator] @ file"
proof -
  from assms have ne: "seg \<noteq> []" and hd: "hd seg \<noteq> Separator"
    by (cases seg; auto simp: plain_name_def)+
  have 1: "clean_loop False (seg @ (Separator # file)) [] 0 =
           clean_loop False (Separator # file) seg 0"
    using clean_loop_plain [OF assms(1), of "Separator # file" "[]" 0] by simp
  have 2: "clean_loop False (Separator # file) seg 0 = clean_loop False (file @ []) seg 0"
    by (subst clean_loop.simps(2)) simp
  have 3: "clean_loop False (file @ []) seg 0 = seg @ [Separator] @ file"
    using clean_loop_plain [OF assms(2), of "[]" seg 0] ne by simp
  show ?thesis using ne hd 1 2 3 by (simp add: Clean_def)
qed

text \<open>
  C9. The truncation of a source location is a function of the path alone, defined on
  every string: it is the filename when the directory has no segment and the directory's
  last segment joined with the filename otherwise, and it leaves the line as it is.
  Joining is the library's path join; when the last segment and the filename are ordinary
  names the result is the segment, one separator and the filename.
  \<open>project/src/model/user.go\<close> gives \<open>model/user.go\<close>, \<open>main.go\<close> gives \<open>main.go\<close>,
  and the empty path gives the empty path.
\<close>

theorem TruncateFile_last_segment_and_filename:
  "TruncateFile s = s\<lparr>File := truncated (File s)\<rparr>
   \<and> (segments (directory (File s)) = [] \<longrightarrow> File (TruncateFile s) = file_name (File s))
   \<and> (segments (directory (File s)) = ss @ [seg] \<longrightarrow>
        File (TruncateFile s) = Join [seg, file_name (File s)])
   \<and> (segments (directory (File s)) = ss @ [seg] \<and> plain_name seg \<and>
        plain_name (file_name (File s)) \<longrightarrow>
        File (TruncateFile s) = seg @ [Separator] @ file_name (File s))
   \<and> File (TruncateFile \<lparr>File = ''project/src/model/user.go'', Line = n\<rparr>) = ''model/user.go''
   \<and> File (TruncateFile \<lparr>File = ''main.go'', Line = n\<rparr>) = ''main.go''
   \<and> File (TruncateFile \<lparr>File = [], Line = n\<rparr>) = []"
proof -
  have 1: "TruncateFile s = s\<lparr>File := truncated (File s)\<rparr>"
    by (rule TruncateFile_truncated)
  have 2: "segments (directory (File s)) = [] \<longrightarrow> File (TruncateFile s) = file_name (File s)"
    by (simp add: TruncateFile_truncated truncated_def)
  have 3: "segments (directory (File s)) = ss @ [seg] \<longrightarrow>
           File (TruncateFile s) = Join [seg, file_name (File s)]"
    by (simp add: TruncateFile_truncated truncated_def)
  have 4: "segments (directory (File s)) = ss @ [seg] \<and> plain_name seg \<and>
           plain_name (file_name (File s)) \<longrightarrow>
           File (TruncateFile s) = seg @ [Separator] @ file_name (File s)"
    using Join_plain [of seg "file_name (File s)"]
    by (simp add: TruncateFile_truncated truncated_def)
  have 5: "File (TruncateFile \<lparr>File = ''project/src/model/user.go'', Line = n\<rparr>) = ''model/user.go''"
    by code_simp
  have 6: "File (TruncateFile \<lparr>File = ''main.go'', Line = n\<rparr>) = ''main.go''"
    by code_simp
  have 7: "File (TruncateFile \<lparr>File = [], Line = n\<rparr>) = []"
    by code_simp
  from 1 2 3 4 5 6 7 show ?thesis by blast
qed

theorem TruncateFile_last_segment_and_filename_witness:
  "File (TruncateFile \<lparr>File = ''/home/dev/app/main.go'', Line = 7\<rparr>) = ''app/main.go''
   \<and> Line (TruncateFile \<lparr>File = ''/home/dev/app/main.go'', Line = 7\<rparr>) = 7
   \<and> File (TruncateFile \<lparr>File = ''/main.go'', Line = 7\<rparr>) = ''main.go''"
proof -
  let ?s = "\<lparr>File = ''/home/dev/app/main.go'', Line = 7\<rparr>"
  let ?r = "\<lparr>File = ''/main.go'', Line = 7\<rparr>"
  have h1: "segments (directory (File ?s)) = [''home'', ''dev''] @ [''app'']"
    by code_simp
  have h2: "plain_name ''app''" "plain_name (file_name (File ?s))"
    by code_simp+
  have h3: "''app'' @ [Separator] @ file_name (File ?s) = ''app/main.go''"
    by code_simp
  have h4: "segments (directory (File ?r)) = []"
    by code_simp
  have h5: "file_name (File ?r) = ''main.go''"
    by code_simp
  from TruncateFile_last_segment_and_filename [of ?s "[''home'', ''dev'']" "''app''"] h1 h2
  have a0: "File (TruncateFile ?s) = ''app'' @ [Separator] @ file_name (File ?s)"
    and b: "TruncateFile ?s = ?s\<lparr>File := truncated (File ?s)\<rparr>"
    by blast+
  from TruncateFile_last_segment_and_filename [of ?r "[]" "[]"] h4
  have c0: "File (TruncateFile ?r) = file_name (File ?r)"
    by blast
  have a: "File (TruncateFile ?s) = ''app/main.go''"
    by (simp only: a0 h3)
  have c: "File (TruncateFile ?r) = ''main.go''"
    by (simp only: c0 h5)
  have d: "Line (TruncateFile ?s) = 7"
    by (subst b) simp
  from a d c show ?thesis by (intro conjI)
qed

section \<open>The logger: the field buffer, the records and the sink\<close>

subsection \<open>The store of loggers\<close>

lemma deref_assign_same: "deref s l = Some lg \<Longrightarrow> deref (assign l lg' s) l = Some lg'"
  by (auto simp: deref_def assign_def split: if_splits)

lemma deref_assign_other: "a \<noteq> l \<Longrightarrow> deref (assign l lg' s) a = deref s a"
  by (auto simp: deref_def assign_def)

lemma assign_frame:
  "world (assign l lg' s) = world s" "exit_status (assign l lg' s) = exit_status s"
  "store (assign l lg' s) = store s"
  by (simp_all add: assign_def)

lemma deref_world_update: "deref (s\<lparr>world := w\<rparr>) a = deref s a"
  by (simp add: deref_def)

lemma deref_bound: "deref s l = Some lg \<Longrightarrow> l < length (loggers s)"
  by (simp add: deref_def split: if_splits)

lemma deref_loggers: "loggers s' = loggers s \<Longrightarrow> deref s' a = deref s a"
  by (simp add: deref_def)

lemma deref_example: "deref example_state 0 = Some example_logger"
  by (simp add: deref_def example_state_def)

lemma deref_failing: "deref failing_state 0 = Some failing_logger"
  by (simp add: deref_def failing_state_def)

lemma deref_panicking: "deref panicking_state 0 = Some panicking_logger"
  by (simp add: deref_def panicking_state_def)

lemma deref_zero: "deref zero_state 0 = Some zero_logger"
  by (simp add: deref_def zero_state_def)

lemma deref_silent: "deref silent_state 0 = Some silent_logger"
  by (simp add: deref_def silent_state_def)

subsection \<open>The copy of the pending fields\<close>

lemma copy_append:
  "distinct (map fst xs) \<Longrightarrow> fst ` set xs \<inter> fst ` set acc = {} \<Longrightarrow>
   fold copy_entry xs acc = acc @ xs"
proof (induction xs arbitrary: acc)
  case Nil
  then show ?case by simp
next
  case (Cons x xs)
  have "AList.update (fst x) (snd x) acc = acc @ [x]"
    using Cons.prems(2) by (induction acc) (auto simp: image_iff)
  moreover have "fst ` set xs \<inter> fst ` set (acc @ [x]) = {}"
    using Cons.prems by (auto simp: image_iff)
  ultimately show ?case using Cons by (simp add: copy_entry_def)
qed

lemma copy_entries: "fold copy_entry (entries m) [] = entries m"
  using copy_append [of "entries m" "[]"] by (simp add: entries_def distinct_clearjunk)

lemma entries_Nil_iff: "entries m = [] \<longleftrightarrow> m = []"
  by (cases m) (auto simp: entries_def)

lemma set_entries: "set (entries m) \<subseteq> set m"
  unfolding entries_def by (induct m rule: clearjunk.induct) (auto simp: AList.delete_eq)

lemma emitted_record_simps:
  "Time (emitted_record env depth lvl msg lg) = Now env"
  "App (emitted_record env depth lvl msg lg) = app lg"
  "Level (emitted_record env depth lvl msg lg) = String lvl"
  "Msg (emitted_record env depth lvl msg lg) = msg"
  "Data (emitted_record env depth lvl msg lg) = entries (data lg)"
  "Src (emitted_record env depth lvl msg lg) = capture env depth"
  by (simp_all add: emitted_record_def copy_entries)

subsection \<open>The branches of the emission routine\<close>

lemma output_gated:
  "deref s l = Some lg \<Longrightarrow> lvl < level lg \<Longrightarrow>
   Logger_output env d lvl msg l s = Inr (assign l (lg\<lparr>data := []\<rparr>) s)"
  by (simp add: Logger_output_def)

lemma output_emitted:
  "deref s l = Some lg \<Longrightarrow> \<not> lvl < level lg \<Longrightarrow>
   Logger_output env d lvl msg l s =
     (case marshal_WriteLog (store s) (emitted_record env d lvl msg lg) of
        Encoded j \<Rightarrow> deliver (out lg) (Encode env j) (assign l (lg\<lparr>data := []\<rparr>) s)
      | Failed err \<Rightarrow> deliver (out lg) (fallback err) (assign l (lg\<lparr>data := []\<rparr>) s)
      | Panicked p \<Rightarrow> Inl (Panic p, assign l (lg\<lparr>data := []\<rparr>) s))"
  by (simp add: Logger_output_def emitted_record_def assign_frame Marshal_def Let_def
      split: encoded.splits)

lemma invoke_output:
  "invoke m env fmt args l s = Logger_output env 2 (severity_level m) (Sprintf env fmt args) l s"
  by (cases m) (simp_all add: Debug_def Info_def Notice_def Warn_def Error_def Critical_def
      Alert_def Emergency_def)

lemma deliver_state:
  "loggers (state_after (deliver sink bytes s)) = loggers s"
  "store (state_after (deliver sink bytes s)) = store s"
  "exit_status (state_after (deliver sink bytes s)) = exit_status s"
  by (simp_all add: deliver_def state_after_def split: sum.splits prod.splits)

lemma deliver_nil: "deliver NoWriter bytes s = Inl (NilDereference, s)"
  by (simp add: deliver_def)

lemma deliver_writes:
  "sink \<noteq> NoWriter \<Longrightarrow>
   \<exists>s'. deliver sink bytes s = Inr s' \<and> loggers s' = loggers s \<and> store s' = store s \<and>
       exit_status s' = exit_status s \<and>
       stdout (world s') = (case stdout_error (world s) of
                     None \<Rightarrow> stdout (world s) @ bytes @ [CHR 0x0A]
                   | Some e \<Rightarrow> stdout (world s)) \<and>
       posts (world s') = (case sink of
                    postWriter url \<Rightarrow>
                      if url \<noteq> [] then posts (world s) @ [(url, bytes)] else posts (world s)
                  | _ \<Rightarrow> posts (world s)) \<and>
       stdout_error (world s') = stdout_error (world s)"
  by (cases sink) (auto simp: deliver_def Println_def split: option.splits)

lemma deliver_unfolded:
  "deliver sink bytes (assign l lg' s) =
     (case Write sink bytes (world s) of
        Inl e \<Rightarrow> Inl (e, assign l lg' s)
      | Inr (result, w) \<Rightarrow> Inr ((assign l lg' s)\<lparr>world := w\<rparr>))"
  by (simp add: deliver_def assign_frame)

lemma output_clears:
  assumes "deref s l = Some lg"
  shows "deref (state_after (Logger_output env depth lvl msg l s)) l = Some (lg\<lparr>data := []\<rparr>)"
    and "store (state_after (Logger_output env depth lvl msg l s)) = store s"
    and "exit_status (state_after (Logger_output env depth lvl msg l s)) = exit_status s"
proof -
  let ?c = "assign l (lg\<lparr>data := []\<rparr>) s"
  have c: "deref ?c l = Some (lg\<lparr>data := []\<rparr>)"
    using assms by (rule deref_assign_same)
  have d: "deref (state_after (deliver sink bytes ?c)) l = Some (lg\<lparr>data := []\<rparr>)" for sink bytes
    using c deref_loggers [OF deliver_state(1), of sink bytes ?c l] by simp
  show "deref (state_after (Logger_output env depth lvl msg l s)) l = Some (lg\<lparr>data := []\<rparr>)"
  proof (cases "lvl < level lg")
    case True
    with assms c show ?thesis by (simp add: output_gated state_after_def)
  next
    case False
    with assms c d show ?thesis
      by (simp add: output_emitted split: encoded.splits) (simp add: state_after_def)
  qed
  show "store (state_after (Logger_output env depth lvl msg l s)) = store s"
  proof (cases "lvl < level lg")
    case True
    with assms show ?thesis by (simp add: output_gated state_after_def assign_frame)
  next
    case False
    with assms show ?thesis
      by (simp add: output_emitted deliver_state assign_frame split: encoded.splits)
         (simp add: state_after_def assign_frame)
  qed
  show "exit_status (state_after (Logger_output env depth lvl msg l s)) = exit_status s"
  proof (cases "lvl < level lg")
    case True
    with assms show ?thesis by (simp add: output_gated state_after_def assign_frame)
  next
    case False
    with assms show ?thesis
      by (simp add: output_emitted deliver_state assign_frame split: encoded.splits)
         (simp add: state_after_def assign_frame)
  qed
qed

lemma Fatal_returns:
  "Logger_output env 2 EmergencyLevel (Sprintf env fmt args) l s = Inr s1 \<Longrightarrow>
   Fatal env fmt args l s = Inr (Exit 1 s1)"
  by (simp add: Fatal_def)

lemma Fatal_panics:
  "Logger_output env 2 EmergencyLevel (Sprintf env fmt args) l s = Inl e \<Longrightarrow>
   Fatal env fmt args l s = Inl e"
  by (simp add: Fatal_def)

subsection \<open>The JSON of a record\<close>

lemma collect_names:
  "collect (map (marshal_member arrays) xs) = Encoded ms \<Longrightarrow> map fst ms = map fst xs"
proof (induction xs arbitrary: ms)
  case Nil
  then show ?case by simp
next
  case (Cons x xs)
  show ?case
  proof (cases "marshal_member arrays x")
    case (Encoded m)
    then have m: "fst m = fst x"
      by (auto simp: marshal_member_def split: encoded.splits)
    from Encoded Cons.prems obtain ms' where
      "collect (map (marshal_member arrays) xs) = Encoded ms'" "ms = m # ms'"
      by (auto split: encoded.splits)
    with Cons.IH [of ms'] m show ?thesis by simp
  next
    case (Failed e)
    with Cons.prems show ?thesis by simp
  next
    case (Panicked p)
    with Cons.prems show ?thesis by simp
  qed
qed

lemma collect_Panicked: "collect rs = Panicked p \<Longrightarrow> Panicked p \<in> set rs"
proof (induction rs)
  case Nil
  then show ?case by simp
next
  case (Cons r rs)
  then show ?case by (cases r) (auto split: encoded.splits)
qed

lemma marshal_Data_names:
  "marshal_Data arrays d = Encoded j \<Longrightarrow> member_names j = map fst (sort_key fst (entries d))"
  by (auto simp: marshal_Data_def member_names_def split: encoded.splits dest: collect_names)

lemma marshal_Data_Panicked:
  assumes "marshal_Data arrays d = Panicked p"
  shows "\<exists>kv\<in>set d. marshal_any (depth_bound arrays) arrays (snd kv) = Panicked p"
proof -
  from assms have "collect (map (marshal_member arrays) (sort_key fst (entries d))) = Panicked p"
    by (simp add: marshal_Data_def split: encoded.splits)
  then have "Panicked p \<in> set (map (marshal_member arrays) (sort_key fst (entries d)))"
    by (rule collect_Panicked)
  then obtain kv where kv: "kv \<in> set (entries d)" "marshal_member arrays kv = Panicked p"
    by auto
  from kv(2) have "marshal_any (depth_bound arrays) arrays (snd kv) = Panicked p"
    by (simp add: marshal_member_def split: encoded.splits)
  with kv(1) set_entries [of d] show ?thesis by blast
qed

lemma marshal_WriteLog_Panicked:
  "marshal_WriteLog arrays w = Panicked p \<Longrightarrow>
   \<exists>kv\<in>set (Data w). marshal_any (depth_bound arrays) arrays (snd kv) = Panicked p"
  by (auto simp: marshal_WriteLog_def split: if_splits encoded.splits dest: marshal_Data_Panicked)

lemma record_never_panics:
  assumes "\<forall>kv\<in>set (data lg). \<forall>p. marshal_any (depth_bound arrays) arrays (snd kv) \<noteq> Panicked p"
  shows "marshal_WriteLog arrays (emitted_record env depth lvl msg lg) \<noteq> Panicked p"
proof
  assume "marshal_WriteLog arrays (emitted_record env depth lvl msg lg) = Panicked p"
  from marshal_WriteLog_Panicked [OF this] obtain kv where
    "kv \<in> set (entries (data lg))" "marshal_any (depth_bound arrays) arrays (snd kv) = Panicked p"
    by (auto simp: emitted_record_simps)
  with assms set_entries [of "data lg"] show False by blast
qed

lemma marshal_WriteLog_shape:
  assumes "marshal_WriteLog arrays w = Encoded j"
  shows "member_names j =
           [''time'', ''app'', ''level'', ''msg''] @ (if Data w = [] then [] else [''data''])
           @ [''Src'']"
    and "member j ''time'' = Some (JString (Time w))"
    and "member j ''app'' = Some (JString (App w))"
    and "member j ''level'' = Some (JString (Level w))"
    and "member j ''msg'' = Some (JString (Msg w))"
    and "member j ''Src'' =
           Some (JObject [(''file'', JString (File (Src w))), (''line'', JNumber (Line (Src w)))])"
    and "Data w \<noteq> [] \<longrightarrow>
           (\<exists>d. member j ''data'' = Some d \<and>
                member_names d = map fst (sort_key fst (entries (Data w))))"
    and "Data w = [] \<longrightarrow> member j ''data'' = None"
  using assms
  by (auto simp: marshal_WriteLog_def member_names_def member_def marshal_Src_def
      split: if_splits encoded.splits dest: marshal_Data_names)

lemma output_returns:
  assumes d: "deref s l = Some lg" and sink: "out lg \<noteq> NoWriter"
    and calm: "\<forall>kv\<in>set (data lg). \<forall>p.
                 marshal_any (depth_bound (store s)) (store s) (snd kv) \<noteq> Panicked p"
    and bytes: "bytes =
      (case marshal_WriteLog (store s) (emitted_record env depth lvl msg lg) of
         Encoded j \<Rightarrow> Encode env j
       | Failed err \<Rightarrow> ''Logger unable to marshal log output to JSON: '' @ err
       | Panicked p \<Rightarrow> [])"
  shows "\<exists>s'. Logger_output env depth lvl msg l s = Inr s' \<and> exit_status s' = exit_status s \<and>
           stdout (world s') =
             (if lvl < level lg \<or> stdout_error (world s) \<noteq> None then stdout (world s)
              else stdout (world s) @ bytes @ [CHR 0x0A]) \<and>
           posts (world s') =
             (case out lg of
                postWriter url \<Rightarrow>
                  if \<not> lvl < level lg \<and> url \<noteq> [] then posts (world s) @ [(url, bytes)]
                  else posts (world s)
              | _ \<Rightarrow> posts (world s))"
proof (cases "lvl < level lg")
  case True
  with d show ?thesis
    by (simp add: output_gated assign_frame split: Writer.splits)
next
  case False
  let ?c = "assign l (lg\<lparr>data := []\<rparr>) s"
  from record_never_panics [OF calm]
  have np: "marshal_WriteLog (store s) (emitted_record env depth lvl msg lg) \<noteq> Panicked p" for p
    by blast
  have o: "Logger_output env depth lvl msg l s = deliver (out lg) bytes ?c"
  proof (cases "marshal_WriteLog (store s) (emitted_record env depth lvl msg lg)")
    case (Encoded j)
    with output_emitted [OF d False, of env depth msg] bytes show ?thesis by simp
  next
    case (Failed err)
    with output_emitted [OF d False, of env depth msg] bytes show ?thesis
      by (simp add: fallback_def)
  next
    case (Panicked p)
    with np [of p] show ?thesis by simp
  qed
  from deliver_writes [OF sink, of bytes ?c] False show ?thesis
    unfolding o by (auto simp: assign_frame split: option.splits Writer.splits)
qed

lemma output_panics:
  assumes "deref s l = Some lg" and "\<not> lvl < level lg"
    and "marshal_WriteLog (store s) (emitted_record env depth lvl msg lg) = Panicked p"
  shows "Logger_output env depth lvl msg l s = Inl (Panic p, assign l (lg\<lparr>data := []\<rparr>) s)"
  using output_emitted [OF assms(1,2), of env depth msg] assms(3) by simp

lemma output_nil_sink:
  assumes "deref s l = Some lg" and "\<not> lvl < level lg" and "out lg = NoWriter"
    and "\<forall>p. marshal_WriteLog (store s) (emitted_record env depth lvl msg lg) \<noteq> Panicked p"
  shows "Logger_output env depth lvl msg l s =
           Inl (NilDereference, assign l (lg\<lparr>data := []\<rparr>) s)"
proof (cases "marshal_WriteLog (store s) (emitted_record env depth lvl msg lg)")
  case (Encoded j)
  with output_emitted [OF assms(1,2), of env depth msg] assms(3) show ?thesis
    by (simp add: deliver_nil)
next
  case (Failed err)
  with output_emitted [OF assms(1,2), of env depth msg] assms(3) show ?thesis
    by (simp add: deliver_nil)
next
  case (Panicked p)
  with assms(4) show ?thesis by blast
qed

subsection \<open>\<open>With\<close> when no backing array is shared\<close>

text \<open>
  \<open>With\<close> returns a logger at a new address with the receiver's application name,
  threshold and sink, and leaves the receiver's own record, the sink and the exit status
  as they were. On a new logger two chained calls with one key give the sequence of the
  two values, and the scenario of the specification runs as the specification says: the
  first record carries \<open>{k: v1}\<close> and the second, sent through the original logger,
  carries \<open>{k: v2}\<close> alone.
\<close>

lemma With_new_logger:
  assumes "deref s l = Some lg"
  shows "\<exists>l' s' lg'. With env nodes l s = Inr (l', s') \<and> l' = length (loggers s) \<and> l' \<noteq> l \<and>
           deref s' l' = Some lg' \<and> app lg' = app lg \<and> level lg' = level lg \<and>
           out lg' = out lg \<and> deref s' l = Some lg \<and>
           world s' = world s \<and> exit_status s' = exit_status s"
proof -
  obtain m arrays' where
    m: "merge_nodes (Grow env) nodes (fold copy_entry (entries (data lg)) [], store s) = (m, arrays')"
    by (cases "merge_nodes (Grow env) nodes (fold copy_entry (entries (data lg)) [], store s)")
  from deref_bound [OF assms] have b: "l < length (loggers s)" .
  with assms m show ?thesis
    by (simp add: With_def allocate_def deref_def nth_append)
qed

lemma chained_example:
  "fields_returned
     (and_With [[(k, AString v2)]]
        (With example_env [[(k, AString v1)]] (fst (New name lv s)) (snd (New name lv s)))) k =
     Some (Sequence [AString v1, AString v2])"
  by (simp add: New_def allocate_def With_def and_With_def deref_def nth_append merge_nodes_def
      entries_def merge_entry_def copy_entry_def two_values_def fields_returned_def fields_of_def
      field_of_def)

lemma scenario_lines:
  "map_sum fst (\<lambda>s. stdout (world s)) original_logger_scenario =
     Inr (example_line ''a'' [(''data'', JObject [(''k'', JString ''v1'')])]
          @ example_line ''b'' [(''data'', JObject [(''k'', JString ''v2'')])])"
  by code_simp

subsection \<open>The claims about the logger\<close>

text \<open>
  C1. A call at a level below the logger's threshold writes nothing to the sink (standard
  output and the list of POST requests are as before, and so is the exit status), and
  after it the logger's pending-field buffer is empty. It holds for the emission routine
  at every pair of levels \<open>L1 < L2\<close>, and so for each of the eight severity methods.
\<close>

theorem gated_call_writes_nothing:
  assumes "deref s l = Some lg"
  shows "(L1 < level lg \<longrightarrow>
           (\<exists>s' lg'. Logger_output env depth L1 msg l s = Inr s' \<and> world s' = world s \<and>
              exit_status s' = exit_status s \<and> deref s' l = Some lg' \<and> data lg' = []))
       \<and> (severity_level m < level lg \<longrightarrow>
           (\<exists>s' lg'. invoke m env fmt args l s = Inr s' \<and> world s' = world s \<and>
              exit_status s' = exit_status s \<and> deref s' l = Some lg' \<and> data lg' = []))"
  using assms
  by (auto simp: invoke_output output_gated deref_assign_same assign_frame)

theorem gated_call_writes_nothing_witness:
  "\<exists>s' lg'. invoke InfoMethod example_env ''hello'' [] 0 example_state = Inr s' \<and>
      world s' = world example_state \<and> exit_status s' = exit_status example_state \<and>
      deref s' 0 = Some lg' \<and> data lg' = []"
proof -
  have h: "severity_level InfoMethod < level example_logger"
    by (simp add: example_logger_def InfoLevel_def WarningLevel_def)
  from gated_call_writes_nothing
         [OF deref_example, where m = InfoMethod and env = example_env and fmt = "''hello''"
            and args = "[]"] h
  show ?thesis by blast
qed

text \<open>
  C2. The claim is that the fields of the logger \<open>With\<close> returns are the result of the
  merge algorithm. The code appends in place, into a backing array other slices share,
  and the fields then differ from the merge. With the caller's slice \<open>sl\<close> (length 1,
  capacity 4, element \<open>a\<close>) under the keys \<open>k1\<close> and \<open>k2\<close>, followed by \<open>{k1: x}\<close> and
  \<open>{k2: y}\<close> in one call, the logger returned has \<open>k1 = [a, y]\<close> where the merge
  algorithm gives \<open>[a, x]\<close>. And when \<open>With\<close> is called twice on a logger whose slice
  has room left, the second call rewrites the fields of the logger the first call
  returned: \<open>[1, 2, 3, a]\<close> becomes \<open>[1, 2, 3, b]\<close>.
\<close>

theorem With_append_shares_backing_array:
  "fields_returned (With example_env shared_nodes 0 shared_state) ''k1'' =
     Some (Sequence [AString ''a'', AString ''y''])
   \<and> merge_algorithm (store shared_state) (fields_of shared_state 0)
        (concat (map entries shared_nodes)) ''k1'' =
     Some (Sequence [AString ''a'', AString ''x''])
   \<and> fields_of first_derived 4 ''k'' = Some (Sequence [AInt 1, AInt 2, AInt 3, AString ''a''])
   \<and> fields_of second_derived 4 ''k'' = Some (Sequence [AInt 1, AInt 2, AInt 3, AString ''b''])
   \<and> fields_of second_derived 5 ''k'' = Some (Sequence [AInt 1, AInt 2, AInt 3, AString ''b''])"
  by code_simp

text \<open>
  C3. After a call of any of the eight severity methods (Debug to Emergency) on a logger,
  the logger's pending-field buffer is empty, whatever the threshold: whether the call
  was stopped at the gate, wrote a record, or panicked on the way to the sink. The same
  holds of the emission routine at any level.
\<close>

theorem buffer_empty_after_call:
  assumes "deref s l = Some lg"
  shows "(\<exists>lg'. deref (state_after (invoke m env fmt args l s)) l = Some lg' \<and> data lg' = [])
       \<and> (\<exists>lg'. deref (state_after (Logger_output env depth lvl msg l s)) l = Some lg' \<and>
             data lg' = [])
       \<and> (invoke m env fmt args l s = Inr s' \<longrightarrow>
            (\<exists>lg'. deref s' l = Some lg' \<and> data lg' = []))"
proof -
  have 1: "\<exists>lg'. deref (state_after (invoke m env fmt args l s)) l = Some lg' \<and> data lg' = []"
    using output_clears(1) [OF assms] unfolding invoke_output by simp
  have 2: "\<exists>lg'. deref (state_after (Logger_output env depth lvl msg l s)) l = Some lg' \<and>
             data lg' = []"
    using output_clears(1) [OF assms] by simp
  have 3: "invoke m env fmt args l s = Inr s' \<longrightarrow>
            (\<exists>lg'. deref s' l = Some lg' \<and> data lg' = [])"
    using 1 by (auto simp: state_after_def)
  from 1 2 3 show ?thesis by blast
qed


theorem buffer_empty_after_call_witness:
  "(\<exists>lg'. deref (state_after (invoke InfoMethod example_env ''hello'' [] 0 example_state)) 0 =
           Some lg' \<and> data lg' = [])
   \<and> (\<exists>lg'. deref (state_after (invoke ErrorMethod example_env ''disk full'' [] 0 example_state)) 0 =
           Some lg' \<and> data lg' = [])
   \<and> (\<exists>lg'. deref (state_after (invoke ErrorMethod example_env ''down'' [] 0 panicking_state)) 0 =
           Some lg' \<and> data lg' = [])
   \<and> data example_logger \<noteq> [] \<and> data panicking_logger \<noteq> []
   \<and> severity_level InfoMethod < level example_logger
   \<and> \<not> severity_level ErrorMethod < level example_logger"
proof -
  have h: "data example_logger \<noteq> []" "data panicking_logger \<noteq> []"
    "severity_level InfoMethod < level example_logger"
    "\<not> severity_level ErrorMethod < level example_logger"
    by (simp_all add: example_logger_def panicking_logger_def InfoLevel_def WarningLevel_def
        ErrorLevel_def)
  from buffer_empty_after_call [OF deref_example, where m = InfoMethod and env = example_env]
    buffer_empty_after_call [OF deref_example, where m = ErrorMethod and env = example_env]
    buffer_empty_after_call [OF deref_panicking, where m = ErrorMethod and env = example_env]
    h
  show ?thesis by blast
qed

text \<open>
  C4. The claim is that \<open>With\<close> leaves the receiver's pending fields as they were. The
  receiver's record is unchanged, but the array behind its slices is written:
  with the caller's slice \<open>sl = [a, b, c]\<close>, a receiver whose fields are
  \<open>{k1: sl[:2], k2: sl}\<close> and the argument \<open>{k1: x}\<close>, the receiver's field \<open>k2\<close> reads
  \<open>[a, b, c]\<close> before the call and \<open>[a, b, x]\<close> after it.
\<close>

theorem With_append_rewrites_receiver:
  "fields_of overlap_state 1 ''k2'' =
     Some (Sequence [AString ''a'', AString ''b'', AString ''c''])
   \<and> fields_of overlap_after 1 ''k2'' =
     Some (Sequence [AString ''a'', AString ''b'', AString ''x''])
   \<and> deref overlap_after 1 = deref overlap_state 1
   \<and> fields_of overlap_after 2 ''k1'' =
     Some (Sequence [AString ''a'', AString ''b'', AString ''x''])"
  by code_simp


text \<open>
  C5, as amended. A severity method has no error result. On a logger whose sink is not
  nil and none of whose field values panics when it is encoded, the call returns to its
  caller and leaves the exit status alone; when it passes the gate, standard output gets
  the payload and a newline (and the remote writer starts a POST of the payload), the
  payload being the encoded record, or the fallback text followed by the error's text
  when \<^verbatim>\<open>json.Marshal\<close> returns an error; when the write to standard output fails the
  call returns all the same, with nothing written. A panic of \<^verbatim>\<open>json.Marshal\<close> and the
  panic of a nil sink are not recovered: the call panics, after the reset of the buffer.
\<close>

theorem severity_call_returns_unless_panic:
  assumes "deref s l = Some lg"
    and "bytes =
      (case marshal_WriteLog (store s)
              (emitted_record env 2 (severity_level m) (Sprintf env fmt args) lg) of
         Encoded j \<Rightarrow> Encode env j
       | Failed err \<Rightarrow> ''Logger unable to marshal log output to JSON: '' @ err
       | Panicked p \<Rightarrow> [])"
  shows "(out lg \<noteq> NoWriter \<and>
          (\<forall>kv\<in>set (data lg). \<forall>p.
             marshal_any (depth_bound (store s)) (store s) (snd kv) \<noteq> Panicked p) \<longrightarrow>
          (\<exists>s'. invoke m env fmt args l s = Inr s' \<and> exit_status s' = exit_status s \<and>
             stdout (world s') =
               (if severity_level m < level lg \<or> stdout_error (world s) \<noteq> None
                then stdout (world s)
                else stdout (world s) @ bytes @ [CHR 0x0A]) \<and>
             posts (world s') =
               (case out lg of
                  postWriter url \<Rightarrow>
                    if \<not> severity_level m < level lg \<and> url \<noteq> []
                    then posts (world s) @ [(url, bytes)]
                    else posts (world s)
                | _ \<Rightarrow> posts (world s))))
       \<and> (\<not> severity_level m < level lg \<and>
          marshal_WriteLog (store s)
            (emitted_record env 2 (severity_level m) (Sprintf env fmt args) lg) = Panicked p \<longrightarrow>
          invoke m env fmt args l s = Inl (Panic p, assign l (lg\<lparr>data := []\<rparr>) s))
       \<and> (\<not> severity_level m < level lg \<and> out lg = NoWriter \<and>
          (\<forall>p. marshal_WriteLog (store s)
                 (emitted_record env 2 (severity_level m) (Sprintf env fmt args) lg)
               \<noteq> Panicked p) \<longrightarrow>
          invoke m env fmt args l s = Inl (NilDereference, assign l (lg\<lparr>data := []\<rparr>) s))"
proof -
  let ?r = "emitted_record env 2 (severity_level m) (Sprintf env fmt args) lg"
  have 1: "out lg \<noteq> NoWriter \<and>
          (\<forall>kv\<in>set (data lg). \<forall>p.
             marshal_any (depth_bound (store s)) (store s) (snd kv) \<noteq> Panicked p) \<longrightarrow>
          (\<exists>s'. invoke m env fmt args l s = Inr s' \<and> exit_status s' = exit_status s \<and>
             stdout (world s') =
               (if severity_level m < level lg \<or> stdout_error (world s) \<noteq> None
                then stdout (world s)
                else stdout (world s) @ bytes @ [CHR 0x0A]) \<and>
             posts (world s') =
               (case out lg of
                  postWriter url \<Rightarrow>
                    if \<not> severity_level m < level lg \<and> url \<noteq> []
                    then posts (world s) @ [(url, bytes)]
                    else posts (world s)
                | _ \<Rightarrow> posts (world s)))"
    unfolding invoke_output
    using output_returns [OF assms(1) _ _ assms(2)] by blast
  have 2: "\<not> severity_level m < level lg \<and> marshal_WriteLog (store s) ?r = Panicked p \<longrightarrow>
          invoke m env fmt args l s = Inl (Panic p, assign l (lg\<lparr>data := []\<rparr>) s)"
    unfolding invoke_output using output_panics [OF assms(1)] by blast
  have 3: "\<not> severity_level m < level lg \<and> out lg = NoWriter \<and>
          (\<forall>p. marshal_WriteLog (store s) ?r \<noteq> Panicked p) \<longrightarrow>
          invoke m env fmt args l s = Inl (NilDereference, assign l (lg\<lparr>data := []\<rparr>) s)"
    unfolding invoke_output using output_nil_sink [OF assms(1)] by blast
  from 1 2 3 show ?thesis by blast
qed

theorem severity_call_returns_unless_panic_witness:
  "(\<exists>s'. invoke ErrorMethod example_env ''down'' [] 0 failing_state = Inr s' \<and>
       exit_status s' = None \<and> stdout (world s') = [])
   \<and> (\<exists>s'. invoke ErrorMethod example_env ''down'' [] 0 (failing_state\<lparr>world := healthy\<rparr>) = Inr s' \<and>
       exit_status s' = None \<and>
       stdout (world s') =
         ''Logger unable to marshal log output to JSON: json: unsupported type: chan int''
         @ [CHR 0x0A])"
proof -
  let ?h = "failing_state\<lparr>world := healthy\<rparr>"
  let ?bytes = "''Logger unable to marshal log output to JSON: json: unsupported type: chan int''"
  have dh: "deref ?h 0 = Some failing_logger"
    by (simp add: deref_def failing_state_def)
  have sink: "out failing_logger \<noteq> NoWriter"
    by (simp add: failing_logger_def)
  have calm: "\<forall>kv\<in>set (data failing_logger). \<forall>p.
                marshal_any (depth_bound arrs) arrs (snd kv) \<noteq> Panicked p" for arrs
    by (simp add: failing_logger_def)
  have b1: "?bytes =
      (case marshal_WriteLog (store failing_state)
              (emitted_record example_env 2 (severity_level ErrorMethod)
                 (Sprintf example_env ''down'' []) failing_logger) of
         Encoded j \<Rightarrow> Encode example_env j
       | Failed err \<Rightarrow> ''Logger unable to marshal log output to JSON: '' @ err
       | Panicked p \<Rightarrow> [])"
    by code_simp
  have b2: "?bytes =
      (case marshal_WriteLog (store ?h)
              (emitted_record example_env 2 (severity_level ErrorMethod)
                 (Sprintf example_env ''down'' []) failing_logger) of
         Encoded j \<Rightarrow> Encode example_env j
       | Failed err \<Rightarrow> ''Logger unable to marshal log output to JSON: '' @ err
       | Panicked p \<Rightarrow> [])"
    by code_simp
  have g: "\<not> severity_level ErrorMethod < level failing_logger"
    by (simp add: failing_logger_def ErrorLevel_def InfoLevel_def)
  have w: "exit_status failing_state = None" "stdout (world failing_state) = []"
    "stdout_error (world failing_state) \<noteq> None"
    "exit_status ?h = None" "stdout (world ?h) = []" "stdout_error (world ?h) = None"
    by (simp_all add: failing_state_def broken_def healthy_def)
  from severity_call_returns_unless_panic [OF deref_failing b1] sink calm
  obtain s1 where 1: "invoke ErrorMethod example_env ''down'' [] 0 failing_state = Inr s1"
    "exit_status s1 = exit_status failing_state"
    "stdout (world s1) =
       (if severity_level ErrorMethod < level failing_logger \<or>
           stdout_error (world failing_state) \<noteq> None
        then stdout (world failing_state)
        else stdout (world failing_state) @ ?bytes @ [CHR 0x0A])"
    by blast
  from severity_call_returns_unless_panic [OF dh b2] sink calm
  obtain s2 where 2: "invoke ErrorMethod example_env ''down'' [] 0 ?h = Inr s2"
    "exit_status s2 = exit_status ?h"
    "stdout (world s2) =
       (if severity_level ErrorMethod < level failing_logger \<or> stdout_error (world ?h) \<noteq> None
        then stdout (world ?h)
        else stdout (world ?h) @ ?bytes @ [CHR 0x0A])"
    by blast
  from 1 w g have "exit_status s1 = None \<and> stdout (world s1) = []" by simp
  moreover from 2 w g have "exit_status s2 = None \<and> stdout (world s2) = ?bytes @ [CHR 0x0A]"
    by simp
  ultimately show ?thesis using 1(1) 2(1) by blast
qed

text \<open>
  C5, as stated, fails: a call on a logger with a field whose \<^verbatim>\<open>MarshalJSON\<close> panics
  raises that panic to its caller, and a call on the zero value of a \<open>Logger\<close> panics
  at the nil sink.
\<close>

theorem severity_call_panics:
  "invoke ErrorMethod example_env ''down'' [] 0 panicking_state =
     Inl (Panic ''boom'', panicking_state\<lparr>loggers := [panicking_logger\<lparr>data := []\<rparr>]\<rparr>)
   \<and> invoke ErrorMethod example_env ''down'' [] 0 zero_state = Inl (NilDereference, zero_state)"
  by code_simp


text \<open>
  C6, as amended. \<open>Fatal\<close> runs the emission routine at the emergency level and, when
  the routine returns, ends the process with the exit status 1. On a logger whose sink is
  not nil and none of whose field values panics when it is encoded, the routine returns:
  with a threshold of at most Emergency, standard output gets the payload (the encoded
  record, or the fallback text when the encoding returns an error) and a newline, or
  nothing when the write fails; with a threshold above Emergency nothing is written.
  The exit status is 1 in each case. A panic of \<^verbatim>\<open>json.Marshal\<close> or of a nil sink
  leaves \<open>Fatal\<close> before the exit: the exit status is as it was.
\<close>

theorem Fatal_exits_when_emission_returns:
  assumes "deref s l = Some lg"
    and "bytes =
      (case marshal_WriteLog (store s)
              (emitted_record env 2 EmergencyLevel (Sprintf env fmt args) lg) of
         Encoded j \<Rightarrow> Encode env j
       | Failed err \<Rightarrow> ''Logger unable to marshal log output to JSON: '' @ err
       | Panicked p \<Rightarrow> [])"
  shows "(out lg \<noteq> NoWriter \<and>
          (\<forall>kv\<in>set (data lg). \<forall>p.
             marshal_any (depth_bound (store s)) (store s) (snd kv) \<noteq> Panicked p) \<longrightarrow>
          (\<exists>s'. Fatal env fmt args l s = Inr s' \<and> exit_status s' = Some 1 \<and>
             stdout (world s') =
               (if EmergencyLevel < level lg \<or> stdout_error (world s) \<noteq> None
                then stdout (world s)
                else stdout (world s) @ bytes @ [CHR 0x0A]) \<and>
             posts (world s') =
               (case out lg of
                  postWriter url \<Rightarrow>
                    if \<not> EmergencyLevel < level lg \<and> url \<noteq> []
                    then posts (world s) @ [(url, bytes)]
                    else posts (world s)
                | _ \<Rightarrow> posts (world s))))
       \<and> (EmergencyLevel < level lg \<longrightarrow>
          (\<exists>s'. Fatal env fmt args l s = Inr s' \<and> world s' = world s \<and>
             exit_status s' = Some 1))
       \<and> (\<not> EmergencyLevel < level lg \<and>
          marshal_WriteLog (store s)
            (emitted_record env 2 EmergencyLevel (Sprintf env fmt args) lg) = Panicked p \<longrightarrow>
          (\<exists>s1. Fatal env fmt args l s = Inl (Panic p, s1) \<and> exit_status s1 = exit_status s))
       \<and> (\<not> EmergencyLevel < level lg \<and> out lg = NoWriter \<and>
          (\<forall>p. marshal_WriteLog (store s)
                 (emitted_record env 2 EmergencyLevel (Sprintf env fmt args) lg)
               \<noteq> Panicked p) \<longrightarrow>
          (\<exists>s1. Fatal env fmt args l s = Inl (NilDereference, s1) \<and>
             exit_status s1 = exit_status s))"
proof -
  let ?r = "emitted_record env 2 EmergencyLevel (Sprintf env fmt args) lg"
  let ?c = "assign l (lg\<lparr>data := []\<rparr>) s"
  have 1: "out lg \<noteq> NoWriter \<and>
          (\<forall>kv\<in>set (data lg). \<forall>p.
             marshal_any (depth_bound (store s)) (store s) (snd kv) \<noteq> Panicked p) \<longrightarrow>
          (\<exists>s'. Fatal env fmt args l s = Inr s' \<and> exit_status s' = Some 1 \<and>
             stdout (world s') =
               (if EmergencyLevel < level lg \<or> stdout_error (world s) \<noteq> None
                then stdout (world s)
                else stdout (world s) @ bytes @ [CHR 0x0A]) \<and>
             posts (world s') =
               (case out lg of
                  postWriter url \<Rightarrow>
                    if \<not> EmergencyLevel < level lg \<and> url \<noteq> []
                    then posts (world s) @ [(url, bytes)]
                    else posts (world s)
                | _ \<Rightarrow> posts (world s)))"
  proof (intro impI, elim conjE)
    assume sink: "out lg \<noteq> NoWriter"
      and calm: "\<forall>kv\<in>set (data lg). \<forall>p.
             marshal_any (depth_bound (store s)) (store s) (snd kv) \<noteq> Panicked p"
    from output_returns [OF assms(1) sink calm assms(2)] obtain s1 where
      o: "Logger_output env 2 EmergencyLevel (Sprintf env fmt args) l s = Inr s1" and
      w: "stdout (world s1) =
               (if EmergencyLevel < level lg \<or> stdout_error (world s) \<noteq> None
                then stdout (world s)
                else stdout (world s) @ bytes @ [CHR 0x0A])"
         "posts (world s1) =
               (case out lg of
                  postWriter url \<Rightarrow>
                    if \<not> EmergencyLevel < level lg \<and> url \<noteq> []
                    then posts (world s) @ [(url, bytes)]
                    else posts (world s)
                | _ \<Rightarrow> posts (world s))"
      by blast
    from Fatal_returns [OF o] w show "\<exists>s'. Fatal env fmt args l s = Inr s' \<and>
             exit_status s' = Some 1 \<and>
             stdout (world s') =
               (if EmergencyLevel < level lg \<or> stdout_error (world s) \<noteq> None
                then stdout (world s)
                else stdout (world s) @ bytes @ [CHR 0x0A]) \<and>
             posts (world s') =
               (case out lg of
                  postWriter url \<Rightarrow>
                    if \<not> EmergencyLevel < level lg \<and> url \<noteq> []
                    then posts (world s) @ [(url, bytes)]
                    else posts (world s)
                | _ \<Rightarrow> posts (world s))"
      by (simp add: Exit_def)
  qed
  have 2: "EmergencyLevel < level lg \<longrightarrow>
          (\<exists>s'. Fatal env fmt args l s = Inr s' \<and> world s' = world s \<and>
             exit_status s' = Some 1)"
    using output_gated [OF assms(1), of EmergencyLevel env 2 "Sprintf env fmt args"]
    by (auto simp: Fatal_def Exit_def assign_frame)
  have 3: "\<not> EmergencyLevel < level lg \<and> marshal_WriteLog (store s) ?r = Panicked p \<longrightarrow>
          (\<exists>s1. Fatal env fmt args l s = Inl (Panic p, s1) \<and> exit_status s1 = exit_status s)"
    using output_panics [OF assms(1), of EmergencyLevel env 2 "Sprintf env fmt args" p]
    by (auto simp: Fatal_def assign_frame)
  have 4: "\<not> EmergencyLevel < level lg \<and> out lg = NoWriter \<and>
          (\<forall>p. marshal_WriteLog (store s) ?r \<noteq> Panicked p) \<longrightarrow>
          (\<exists>s1. Fatal env fmt args l s = Inl (NilDereference, s1) \<and>
             exit_status s1 = exit_status s)"
    using output_nil_sink [OF assms(1), of EmergencyLevel env 2 "Sprintf env fmt args"]
    by (auto simp: Fatal_def assign_frame)
  from 1 2 3 4 show ?thesis by blast
qed

theorem Fatal_exits_when_emission_returns_witness:
  "(\<exists>s'. Fatal example_env ''x'' [] 0 failing_state = Inr s' \<and> exit_status s' = Some 1 \<and>
       stdout (world s') = [])
   \<and> (\<exists>s'. Fatal example_env ''x'' [] 0 (failing_state\<lparr>world := healthy\<rparr>) = Inr s' \<and>
       exit_status s' = Some 1 \<and>
       stdout (world s') =
         ''Logger unable to marshal log output to JSON: json: unsupported type: chan int''
         @ [CHR 0x0A])
   \<and> (1::int) \<noteq> 0"
proof -
  let ?h = "failing_state\<lparr>world := healthy\<rparr>"
  let ?bytes = "''Logger unable to marshal log output to JSON: json: unsupported type: chan int''"
  have dh: "deref ?h 0 = Some failing_logger"
    by (simp add: deref_def failing_state_def)
  have sink: "out failing_logger \<noteq> NoWriter"
    by (simp add: failing_logger_def)
  have calm: "\<forall>kv\<in>set (data failing_logger). \<forall>p.
                marshal_any (depth_bound arrs) arrs (snd kv) \<noteq> Panicked p" for arrs
    by (simp add: failing_logger_def)
  have b1: "?bytes =
      (case marshal_WriteLog (store failing_state)
              (emitted_record example_env 2 EmergencyLevel
                 (Sprintf example_env ''x'' []) failing_logger) of
         Encoded j \<Rightarrow> Encode example_env j
       | Failed err \<Rightarrow> ''Logger unable to marshal log output to JSON: '' @ err
       | Panicked p \<Rightarrow> [])"
    by code_simp
  have b2: "?bytes =
      (case marshal_WriteLog (store ?h)
              (emitted_record example_env 2 EmergencyLevel
                 (Sprintf example_env ''x'' []) failing_logger) of
         Encoded j \<Rightarrow> Encode example_env j
       | Failed err \<Rightarrow> ''Logger unable to marshal log output to JSON: '' @ err
       | Panicked p \<Rightarrow> [])"
    by code_simp
  have g: "\<not> EmergencyLevel < level failing_logger"
    by (simp add: failing_logger_def EmergencyLevel_def InfoLevel_def)
  have w: "stdout (world failing_state) = []" "stdout_error (world failing_state) \<noteq> None"
    "stdout (world ?h) = []" "stdout_error (world ?h) = None"
    by (simp_all add: failing_state_def broken_def healthy_def)
  from Fatal_exits_when_emission_returns [OF deref_failing b1] sink calm
  obtain s1 where 1: "Fatal example_env ''x'' [] 0 failing_state = Inr s1"
    "exit_status s1 = Some 1"
    "stdout (world s1) =
       (if EmergencyLevel < level failing_logger \<or> stdout_error (world failing_state) \<noteq> None
        then stdout (world failing_state)
        else stdout (world failing_state) @ ?bytes @ [CHR 0x0A])"
    by blast
  from Fatal_exits_when_emission_returns [OF dh b2] sink calm
  obtain s2 where 2: "Fatal example_env ''x'' [] 0 ?h = Inr s2"
    "exit_status s2 = Some 1"
    "stdout (world s2) =
       (if EmergencyLevel < level failing_logger \<or> stdout_error (world ?h) \<noteq> None
        then stdout (world ?h)
        else stdout (world ?h) @ ?bytes @ [CHR 0x0A])"
    by blast
  from 1 w g have "stdout (world s1) = []" by simp
  moreover from 2 w g have "stdout (world s2) = ?bytes @ [CHR 0x0A]" by simp
  ultimately show ?thesis using 1(1,2) 2(1,2) by auto
qed


text \<open>
  C6, as stated, fails: with the threshold \<^verbatim>\<open>Level(8)\<close> \<open>Fatal\<close> writes no record (it
  exits with the sink as it was), and with a field whose \<^verbatim>\<open>MarshalJSON\<close> panics
  \<open>Fatal\<close> panics and the exit status is not set.
\<close>

theorem Fatal_without_record_or_exit:
  "Fatal example_env ''x'' [] 0 silent_state = Inr (silent_state\<lparr>exit_status := Some 1\<rparr>)
   \<and> world silent_state = healthy
   \<and> Fatal example_env ''x'' [] 0 panicking_state =
       Inl (Panic ''boom'', panicking_state\<lparr>loggers := [panicking_logger\<lparr>data := []\<rparr>]\<rparr>)
   \<and> exit_status panicking_state = None"
  by code_simp

text \<open>
  C8. A record is emitted when the call passes the gate and \<^verbatim>\<open>json.Marshal\<close> accepts
  the record (when it returns an error, the fallback text is written in place of the
  record, see C5). What the sink receives is then the text of a JSON object whose
  members are, in this order, \<open>time\<close>, \<open>app\<close>, \<open>level\<close>, \<open>msg\<close>, \<open>data\<close> when the
  logger has a pending field, and \<open>Src\<close>; \<open>level\<close> is the label of the call's level,
  \<open>Src\<close> is an object with the members \<open>file\<close> and \<open>line\<close>, and \<open>data\<close> is missing
  exactly when the logger has no pending field; when present it is an object whose
  members are the fields' keys, sorted.
\<close>

theorem emitted_record_json:
  assumes "deref s l = Some lg" and "\<not> lvl < level lg"
    and "marshal_WriteLog (store s) (emitted_record env depth lvl msg lg) = Encoded j"
  shows "Logger_output env depth lvl msg l s =
           (case Write (out lg) (Encode env j) (world s) of
              Inl e \<Rightarrow> Inl (e, assign l (lg\<lparr>data := []\<rparr>) s)
            | Inr (result, w) \<Rightarrow> Inr ((assign l (lg\<lparr>data := []\<rparr>) s)\<lparr>world := w\<rparr>))
       \<and> (out lg \<noteq> NoWriter \<longrightarrow>
            (\<exists>s'. Logger_output env depth lvl msg l s = Inr s' \<and>
               stdout (world s') =
                 (case stdout_error (world s) of
                    None \<Rightarrow> stdout (world s) @ Encode env j @ [CHR 0x0A]
                  | Some e \<Rightarrow> stdout (world s))))
       \<and> member_names j =
           [''time'', ''app'', ''level'', ''msg''] @ (if data lg = [] then [] else [''data''])
           @ [''Src'']
       \<and> member j ''time'' = Some (JString (Now env))
       \<and> member j ''app'' = Some (JString (app lg))
       \<and> member j ''level'' = Some (JString (String lvl))
       \<and> member j ''msg'' = Some (JString msg)
       \<and> member j ''Src'' =
           Some (JObject [(''file'', JString (File (capture env depth))),
                          (''line'', JNumber (Line (capture env depth)))])
       \<and> ((''data'' \<in> set (member_names j)) = (data lg \<noteq> []))
       \<and> (data lg = [] \<longrightarrow> member j ''data'' = None)
       \<and> (data lg \<noteq> [] \<longrightarrow>
            (\<exists>d. member j ''data'' = Some d \<and>
                 member_names d = map fst (sort_key fst (entries (data lg)))))"
proof -
  let ?c = "assign l (lg\<lparr>data := []\<rparr>) s"
  note shape = marshal_WriteLog_shape [OF assms(3), unfolded emitted_record_simps entries_Nil_iff]
  have o: "Logger_output env depth lvl msg l s = deliver (out lg) (Encode env j) ?c"
    using output_emitted [OF assms(1,2), of env depth msg] assms(3) by simp
  have 1: "Logger_output env depth lvl msg l s =
           (case Write (out lg) (Encode env j) (world s) of
              Inl e \<Rightarrow> Inl (e, ?c)
            | Inr (result, w) \<Rightarrow> Inr (?c\<lparr>world := w\<rparr>))"
    unfolding o by (rule deliver_unfolded)
  have 2: "out lg \<noteq> NoWriter \<longrightarrow>
            (\<exists>s'. Logger_output env depth lvl msg l s = Inr s' \<and>
               stdout (world s') =
                 (case stdout_error (world s) of
                    None \<Rightarrow> stdout (world s) @ Encode env j @ [CHR 0x0A]
                  | Some e \<Rightarrow> stdout (world s)))"
    unfolding o using deliver_writes [of "out lg" "Encode env j" ?c]
    by (auto simp: assign_frame split: option.splits)
  have 3: "(''data'' \<in> set (member_names j)) = (data lg \<noteq> [])"
    unfolding shape(1) by simp
  from 1 2 3 shape show ?thesis
    by (simp add: entries_def)
qed

theorem emitted_record_json_witness:
  "Logger_output example_env 2 ErrorLevel ''disk full'' 0 example_state =
     Inr \<lparr>loggers = [example_logger\<lparr>data := []\<rparr>],
          store = [],
          world = healthy\<lparr>stdout :=
            compact (JObject
              [(''time'', JString ''2024-05-01T12:00:00Z''), (''app'', JString ''svc''),
               (''level'', JString ''error''), (''msg'', JString ''disk full''),
               (''data'', JObject [(''request'', JString ''r-17'')]),
               (''Src'', JObject [(''file'', JString ''model/user.go''), (''line'', JNumber 42)])])
            @ [CHR 0x0A]\<rparr>,
          exit_status = None\<rparr>"
proof -
  let ?j = "JObject
              [(''time'', JString ''2024-05-01T12:00:00Z''), (''app'', JString ''svc''),
               (''level'', JString ''error''), (''msg'', JString ''disk full''),
               (''data'', JObject [(''request'', JString ''r-17'')]),
               (''Src'', JObject [(''file'', JString ''model/user.go''), (''line'', JNumber 42)])]"
  have g: "\<not> ErrorLevel < level example_logger"
    by (simp add: example_logger_def ErrorLevel_def WarningLevel_def)
  have m: "marshal_WriteLog (store example_state)
             (emitted_record example_env 2 ErrorLevel ''disk full'' example_logger) = Encoded ?j"
    by code_simp
  have e: "Encode example_env = compact"
    by (simp add: example_env_def)
  from emitted_record_json [OF deref_example g m]
  have "Logger_output example_env 2 ErrorLevel ''disk full'' 0 example_state =
           (case Write (out example_logger) (Encode example_env ?j) (world example_state) of
              Inl e \<Rightarrow> Inl (e, assign 0 (example_logger\<lparr>data := []\<rparr>) example_state)
            | Inr (result, w) \<Rightarrow>
                Inr ((assign 0 (example_logger\<lparr>data := []\<rparr>) example_state)\<lparr>world := w\<rparr>))"
    by blast
  then show ?thesis
    unfolding e
    by (simp add: assign_def example_state_def example_logger_def Println_def healthy_def)
qed


end
